theory Spec2Isabelle
  imports Main "HOL-Library.Multiset"
begin

section \<open>Strings and JavaScript objects used as dictionaries\<close>

text \<open>
  A JavaScript string is modelled by a \<^typ>\<open>string\<close>: the list of its characters, read
  as the bytes of its UTF-8 encoding (for ASCII text, which is what paths, package names
  and versions are, the two coincide). \<open>String.prototype.startsWith\<close> and
  \<open>slice(1)\<close> become \<open>take\<close>/\<open>drop\<close>.
\<close>

definition startsWith :: "string \<Rightarrow> string \<Rightarrow> bool" where
  "startsWith s p = (take (length p) s = p)"

text \<open>
  A plain object used as a dictionary (\<open>Record<string, V>\<close>) is the list of its own
  properties in the order \<open>Object.keys\<close>/\<open>Object.entries\<close> enumerate them: the keys
  that are array indices (canonical decimal numerals below \<open>2^32 - 1\<close>) first, in
  ascending numeric order, then the other keys in insertion order. Keys inherited from
  \<open>Object.prototype\<close> are outside the model.
\<close>

type_synonym 'v dict = "(string \<times> 'v) list"

definition isDigit :: "char \<Rightarrow> bool" where
  "isDigit c = (48 \<le> (of_char c :: nat) \<and> (of_char c :: nat) \<le> 57)"

definition digitsToNat :: "string \<Rightarrow> nat" where
  "digitsToNat s = foldl (\<lambda>n c. 10 * n + ((of_char c :: nat) - 48)) 0 s"

definition isArrayIndex :: "string \<Rightarrow> bool" where
  "isArrayIndex s =
     (s \<noteq> [] \<and> list_all isDigit s \<and> (if hd s = CHR ''0'' then s = ''0'' else True)
      \<and> digitsToNat s < 4294967295)"

definition dict_get :: "'v dict \<Rightarrow> string \<Rightarrow> 'v option" where
  "dict_get d k = map_of d k"

definition dict_has :: "'v dict \<Rightarrow> string \<Rightarrow> bool" where
  "dict_has d k = (map_of d k \<noteq> None)"

definition dict_keys :: "'v dict \<Rightarrow> string list" where
  "dict_keys d = map fst d"

text \<open>A new array-index key goes to its numeric position among the leading index keys.\<close>

fun insertIndex :: "string \<Rightarrow> 'v \<Rightarrow> 'v dict \<Rightarrow> 'v dict" where
  "insertIndex k v [] = [(k, v)]"
| "insertIndex k v ((k', v') # rest) =
     (if isArrayIndex k' \<and> digitsToNat k' < digitsToNat k
      then (k', v') # insertIndex k v rest
      else (k, v) # (k', v') # rest)"

text \<open>
  \<open>obj[k] = v\<close>: an existing property keeps its place and gets the new value; a new
  property is added at its place in the enumeration order.
\<close>

definition dict_set :: "string \<Rightarrow> 'v \<Rightarrow> 'v dict \<Rightarrow> 'v dict" where
  "dict_set k v d =
     (if dict_has d k then map (\<lambda>(k', v'). if k' = k then (k', v) else (k', v')) d
      else if isArrayIndex k then insertIndex k v d
      else d @ [(k, v)])"

text \<open>\<open>delete obj[k]\<close>.\<close>

definition dict_delete :: "string \<Rightarrow> 'v dict \<Rightarrow> 'v dict" where
  "dict_delete k d = filter (\<lambda>(k', v'). k' \<noteq> k) d"

section \<open>The virtual file system (file-system-manager.ts)\<close>

text \<open>
  \<open>interface ProjectFile { contents: string; isEntry?: boolean; jsEntry?: boolean }\<close>.
  An optional property that is absent is \<open>None\<close>.
\<close>

record ProjectFile =
  contents :: string
  isEntry :: "bool option"
  jsEntry :: "bool option"

text \<open>
  The class \<open>FileSystemManager\<close>: the private \<open>projectFiles\<close> object, the current
  working directory and the optional \<open>remote\<close>, itself a file system with the same
  operation set (the proxy re-exposes a \<open>FileSystemManager\<close> of another thread).
\<close>

datatype FileSystemManager =
  FileSystemManager
    (projectFiles: "ProjectFile dict")
    (currentWorkingDirectory: string)
    (remote: "FileSystemManager option")

text \<open>\<open>new FileSystemManager(remote)\<close>: no files, working directory \<open>/app\<close>.\<close>

definition newFileSystemManager :: "FileSystemManager option \<Rightarrow> FileSystemManager" where
  "newFileSystemManager r = FileSystemManager [] ''/app'' r"

text \<open>\<open>path.startsWith('/') ? path.slice(1) : path\<close>\<close>

definition absPath :: "string \<Rightarrow> string" where
  "absPath path = (if startsWith path ''/'' then drop 1 path else path)"

definition cwd :: "FileSystemManager \<Rightarrow> string" where
  "cwd fs = currentWorkingDirectory fs"

primrec chdir :: "FileSystemManager \<Rightarrow> string \<Rightarrow> FileSystemManager" where
  "chdir (FileSystemManager pf wd r) =
     (\<lambda>path. let targetPath = absPath path
             in FileSystemManager pf targetPath (map_option (\<lambda>r'. chdir r' targetPath) r))"

definition fileNames :: "FileSystemManager \<Rightarrow> string list" where
  "fileNames fs = dict_keys (projectFiles fs)"

definition rawFiles :: "FileSystemManager \<Rightarrow> string dict" where
  "rawFiles fs = map (\<lambda>(key, v). (key, contents v)) (projectFiles fs)"

definition exists :: "FileSystemManager \<Rightarrow> string \<Rightarrow> bool" where
  "exists fs path = (let targetPath = absPath path in dict_has (projectFiles fs) targetPath)"

definition isDirectory :: "FileSystemManager \<Rightarrow> string \<Rightarrow> bool" where
  "isDirectory fs path =
     (let targetPath = absPath path
      in list_ex (\<lambda>file. startsWith file targetPath \<and> length file > length targetPath + 1)
           (fileNames fs))"

text \<open>
  The object spread \<open>{...(existing || {}), ...file}\<close> of \<open>setFiles\<close>: every property
  \<open>file\<close> has overrides the existing one, the others are kept.
\<close>

definition spreadFile :: "ProjectFile option \<Rightarrow> ProjectFile \<Rightarrow> ProjectFile" where
  "spreadFile existing file =
     (case existing of
        None \<Rightarrow> file
      | Some old \<Rightarrow>
          \<lparr>contents = contents file,
           isEntry = (case isEntry file of Some b \<Rightarrow> Some b | None \<Rightarrow> isEntry old),
           jsEntry = (case jsEntry file of Some b \<Rightarrow> Some b | None \<Rightarrow> jsEntry old)\<rparr>)"

text \<open>The object spread \<open>{...(existing || {}), contents}\<close> of \<open>writeFile\<close>.\<close>

definition spreadContents :: "ProjectFile option \<Rightarrow> string \<Rightarrow> ProjectFile" where
  "spreadContents existing c =
     (case existing of
        None \<Rightarrow> \<lparr>contents = c, isEntry = None, jsEntry = None\<rparr>
      | Some old \<Rightarrow> old\<lparr>contents := c\<rparr>)"

definition setFilesLocal :: "ProjectFile dict \<Rightarrow> ProjectFile dict \<Rightarrow> ProjectFile dict" where
  "setFilesLocal files pf =
     fold (\<lambda>(path, file) acc.
             let targetPath = absPath path
             in dict_set targetPath (spreadFile (dict_get acc targetPath) file) acc)
          files pf"

primrec setFiles :: "FileSystemManager \<Rightarrow> ProjectFile dict \<Rightarrow> FileSystemManager" where
  "setFiles (FileSystemManager pf wd r) =
     (\<lambda>files. FileSystemManager (setFilesLocal files pf) wd
                (map_option (\<lambda>r'. setFiles r' files) r))"

primrec writeFile :: "FileSystemManager \<Rightarrow> string \<Rightarrow> string \<Rightarrow> FileSystemManager" where
  "writeFile (FileSystemManager pf wd r) =
     (\<lambda>path c.
        let targetPath = absPath path
        in FileSystemManager
             (dict_set targetPath (spreadContents (dict_get pf targetPath) c) pf) wd
             (map_option (\<lambda>r'. writeFile r' targetPath c) r))"

text \<open>
  \<open>x?.contents || ''\<close>: the contents of the record when there is one and they are not
  the empty string (which is falsy), the empty string otherwise.
\<close>

definition contentsOrEmpty :: "ProjectFile option \<Rightarrow> string" where
  "contentsOrEmpty x =
     (case x of None \<Rightarrow> '''' | Some f \<Rightarrow> (if contents f = '''' then '''' else contents f))"

definition readFile :: "FileSystemManager \<Rightarrow> string \<Rightarrow> string" where
  "readFile fs path = contentsOrEmpty (dict_get (projectFiles fs) (absPath path))"

definition deleteFile :: "FileSystemManager \<Rightarrow> string \<Rightarrow> FileSystemManager" where
  "deleteFile fs path =
     FileSystemManager (dict_delete (absPath path) (projectFiles fs))
       (currentWorkingDirectory fs) (remote fs)"

definition readdir :: "FileSystemManager \<Rightarrow> string \<Rightarrow> string list" where
  "readdir fs path =
     (let targetPath = absPath path
      in filter (\<lambda>file. startsWith file targetPath) (fileNames fs))"

definition rmdir :: "FileSystemManager \<Rightarrow> string \<Rightarrow> FileSystemManager" where
  "rmdir fs path = (let files = readdir fs path in fold (\<lambda>file acc. deleteFile acc file) files fs)"

text \<open>The number of file systems behind a file system, following \<open>remote\<close>.\<close>

primrec depth :: "FileSystemManager \<Rightarrow> nat" where
  "depth (FileSystemManager pf wd r) =
     (case map_option depth r of None \<Rightarrow> 0 | Some n \<Rightarrow> Suc n)"

lemma depth_writeFile: "depth (writeFile fs p c) = depth fs"
  by (induction fs arbitrary: p c) (auto simp: Let_def split: option.splits)

text \<open>
  \<open>appendFile\<close> normalises the path, calls \<open>this.writeFile\<close> (which normalises again,
  writes locally and forwards the write to the remote), and then forwards the append to
  the remote as well.
\<close>

function appendFile :: "FileSystemManager \<Rightarrow> string \<Rightarrow> string \<Rightarrow> FileSystemManager" where
  "appendFile fs path c =
     (let targetPath = absPath path;
          fs1 = writeFile fs targetPath
                  (contentsOrEmpty (dict_get (projectFiles fs) targetPath) @ c)
      in FileSystemManager (projectFiles fs1) (currentWorkingDirectory fs1)
           (case remote fs1 of None \<Rightarrow> None | Some r' \<Rightarrow> Some (appendFile r' targetPath c)))"
  by pat_completeness auto
termination
proof (relation "measure (\<lambda>(fs, path, c). depth fs)", goal_cases)
  case 1
  show ?case by simp
next
  case (2 fs path c targetPath fs1 r')
  have "depth fs1 = depth fs" using 2 by (simp add: depth_writeFile)
  moreover have "depth fs1 = Suc (depth r')" using 2(3) by (cases fs1) auto
  ultimately show ?case by simp
qed

section \<open>Path helpers (helpers/path.ts)\<close>

text \<open>\<open>Array.prototype.join(sep)\<close>.\<close>

fun joinWith :: "string \<Rightarrow> string list \<Rightarrow> string" where
  "joinWith sep [] = []"
| "joinWith sep [x] = x"
| "joinWith sep (x # y # ys) = x @ sep @ joinWith sep (y # ys)"

text \<open>\<open>p.replace(/\/+$/g, '')\<close> and \<open>p.replace(/^\/+|\/+$/g, '')\<close>.\<close>

definition stripTrailingSlashes :: "string \<Rightarrow> string" where
  "stripTrailingSlashes p = rev (dropWhile (\<lambda>c. c = CHR ''/'') (rev p))"

definition stripSlashes :: "string \<Rightarrow> string" where
  "stripSlashes p = stripTrailingSlashes (dropWhile (\<lambda>c. c = CHR ''/'') p)"

text \<open>\<open>s.replace(/\/+/g, '/')\<close>: every run of slashes becomes one slash.\<close>

fun collapseSlashes :: "string \<Rightarrow> string" where
  "collapseSlashes [] = []"
| "collapseSlashes [c] = [c]"
| "collapseSlashes (a # b # cs) =
     (if a = CHR ''/'' \<and> b = CHR ''/'' then collapseSlashes (b # cs)
      else a # collapseSlashes (b # cs))"

text \<open>
  \<open>join(...paths)\<close>: the empty segments are dropped, the first one loses its trailing
  slashes, the others their leading and trailing ones; the segments are joined with a
  slash and runs of slashes collapsed.
\<close>

definition join :: "string list \<Rightarrow> string" where
  "join paths =
     collapseSlashes (joinWith ''/''
       (case filter (\<lambda>p. p \<noteq> []) paths of
          [] \<Rightarrow> []
        | p # ps \<Rightarrow> stripTrailingSlashes p # map stripSlashes ps))"

section \<open>The packages fingerprint (dependencies-installer.ts)\<close>

text \<open>
  \<open>Buffer.from(s).toString('base64')\<close>: the standard base64 alphabet with \<open>=\<close>
  padding, over the bytes of the string.
\<close>

definition b64chars :: string where
  "b64chars = ''ABCDEFGHIJKLMNOPQRSTUVWXYZabcdefghijklmnopqrstuvwxyz0123456789+/''"

definition b64 :: "nat \<Rightarrow> char" where
  "b64 n = b64chars ! n"

fun base64_bytes :: "nat list \<Rightarrow> string" where
  "base64_bytes [] = []"
| "base64_bytes [a] = [b64 (a div 4), b64 ((a mod 4) * 16), CHR ''='', CHR ''='']"
| "base64_bytes [a, b] =
     [b64 (a div 4), b64 ((a mod 4) * 16 + b div 16), b64 ((b mod 16) * 4), CHR ''='']"
| "base64_bytes (a # b # c # rest) =
     [b64 (a div 4), b64 ((a mod 4) * 16 + b div 16), b64 ((b mod 16) * 4 + c div 64),
      b64 (c mod 64)] @ base64_bytes rest"

definition base64 :: "string \<Rightarrow> string" where
  "base64 s = base64_bytes (map of_char s)"

text \<open>
  \<open>Array.prototype.sort(compare)\<close>: a stable sort by a comparator that returns a
  negative number, zero or a positive number. An element goes before the first element
  it does not compare greater than.
\<close>

fun insertBy :: "('a \<Rightarrow> 'a \<Rightarrow> int) \<Rightarrow> 'a \<Rightarrow> 'a list \<Rightarrow> 'a list" where
  "insertBy cmp x [] = [x]"
| "insertBy cmp x (y # ys) = (if cmp x y \<le> 0 then x # y # ys else y # insertBy cmp x ys)"

definition array_sort :: "('a \<Rightarrow> 'a \<Rightarrow> int) \<Rightarrow> 'a list \<Rightarrow> 'a list" where
  "array_sort cmp xs = foldr (insertBy cmp) xs []"

text \<open>
  \<open>packagesHash(packages)\<close>. \<open>String.prototype.localeCompare\<close> belongs to the
  platform and is a parameter. The early return \<open>if (!dependenciesRequest) return ''\<close>
  is never taken: an array, even an empty one, is truthy.
\<close>

definition packagesHash :: "(string \<Rightarrow> string \<Rightarrow> int) \<Rightarrow> string dict \<Rightarrow> string" where
  "packagesHash localeCompare packages =
     (let dependenciesRequest =
            map (\<lambda>(name, version). name @ ''@'' @ version)
              (array_sort (\<lambda>e1 e2. localeCompare (fst e1) (fst e2)) packages)
      in base64 (joinWith '';'' dependenciesRequest))"

text \<open>
  \<open>String.prototype.localeCompare\<close> is not code of the repository. For the examples
  it is modelled on ASCII text by the root collation of the platform: the control
  characters other than the white space ones are ignored; the other characters are
  ordered white space, punctuation and symbols (in the order of \<open>collationOrder\<close>),
  digits, letters; the case of the letters counts only between strings that are equal
  otherwise, lower case first. Two strings that differ only in ignored characters
  compare equal. (Bytes outside ASCII are put after the letters.)
\<close>

definition collationOrder :: string where
  "collationOrder =
     [CHR 0x09, CHR 0x0A, CHR 0x0B, CHR 0x0C, CHR 0x0D] @ '' _-,;:!?.''
     @ [CHR 0x27, CHR 0x22] @ ''()[]{}@*/'' @ [CHR 0x5C] @ ''&#%'' @ [CHR 0x60]
     @ ''^+<=>|~$0123456789abcdefghijklmnopqrstuvwxyz''"

definition ignorable :: "char \<Rightarrow> bool" where
  "ignorable c =
     ((of_char c :: nat) < 9 \<or> (14 \<le> (of_char c :: nat) \<and> (of_char c :: nat) < 32)
      \<or> (of_char c :: nat) = 127)"

definition isUpper :: "char \<Rightarrow> bool" where
  "isUpper c = (65 \<le> (of_char c :: nat) \<and> (of_char c :: nat) \<le> 90)"

definition toLower :: "char \<Rightarrow> char" where
  "toLower c = (if isUpper c then char_of ((of_char c :: nat) + 32) else c)"

fun position :: "char \<Rightarrow> string \<Rightarrow> nat" where
  "position c [] = 0"
| "position c (x # xs) = (if c = x then 0 else Suc (position c xs))"

definition primaryWeight :: "char \<Rightarrow> nat" where
  "primaryWeight c =
     (if 128 \<le> (of_char c :: nat) then 1000 + of_char c
      else position (toLower c) collationOrder)"

definition primaries :: "string \<Rightarrow> nat list" where
  "primaries s = map primaryWeight (filter (\<lambda>c. \<not> ignorable c) s)"

definition tertiaries :: "string \<Rightarrow> nat list" where
  "tertiaries s = map (\<lambda>c. if isUpper c then 1 else 0) (filter (\<lambda>c. \<not> ignorable c) s)"

fun compareWeights :: "nat list \<Rightarrow> nat list \<Rightarrow> int" where
  "compareWeights [] [] = 0"
| "compareWeights [] (y # ys) = - 1"
| "compareWeights (x # xs) [] = 1"
| "compareWeights (x # xs) (y # ys) =
     (if x < y then - 1 else if y < x then 1 else compareWeights xs ys)"

definition rootCollation :: "string \<Rightarrow> string \<Rightarrow> int" where
  "rootCollation a b =
     (if compareWeights (primaries a) (primaries b) \<noteq> 0
      then compareWeights (primaries a) (primaries b)
      else compareWeights (tertiaries a) (tertiaries b))"



section \<open>The package cache (dependencies-installer.ts)\<close>

text \<open>A thrown value or the reason of a rejected promise.\<close>

datatype error = Error string

text \<open>
  \<open>Cache.withLocalCacheData(request, getData, transform)\<close> over the process-local
  \<open>Map\<close>. An asynchronous function is a function of the state that returns its outcome
  (\<open>Inl\<close> a rejection, \<open>Inr\<close> the value) and the new state. \<open>getData\<close> acts on the
  state \<open>s\<close> of its caller; \<open>transform\<close> only computes. The inner \<open>case\<close> is the
  \<open>try\<close> block: it yields \<open>Some r\<close> when the block returns \<open>r\<close>, and \<open>None\<close> when
  control leaves it without returning (nothing cached, a falsy cached value, or an
  exception of \<open>transform\<close>, which the \<open>catch\<close> only logs). \<open>truthy\<close> says which values
  of the cached type are truthy.
\<close>

definition withLocalCacheData ::
  "('t \<Rightarrow> bool) \<Rightarrow> (string \<rightharpoonup> 't) \<Rightarrow> string \<Rightarrow> ('s \<Rightarrow> (error + 't) \<times> 's)
     \<Rightarrow> ('t \<Rightarrow> error + 'r) \<Rightarrow> 's \<Rightarrow> (error + 'r) \<times> (string \<rightharpoonup> 't) \<times> 's" where
  "withLocalCacheData truthy localCache request getData transform s =
     (case (case localCache request of
              None \<Rightarrow> None
            | Some cachedData \<Rightarrow>
                if truthy cachedData
                then (case transform cachedData of Inl err \<Rightarrow> None | Inr r \<Rightarrow> Some r)
                else None) of
        Some r \<Rightarrow> (Inr r, localCache, s)
      | None \<Rightarrow>
          (case getData s of
             (Inl err, s') \<Rightarrow> (Inl err, localCache, s')
           | (Inr data, s') \<Rightarrow> (transform data, localCache(request \<mapsto> data), s')))"

text \<open>
  \<open>Cache.withCacheData(request, getData, transform)\<close> over the object store
  \<open>sandpack-cdn\<close> of the browser database, whose records \<open>{request, data}\<close> are keyed
  by \<open>request\<close>: the store maps a request to its \<open>data\<close>. The cached record counts
  when \<open>cachedData && cachedData.data\<close> is truthy.
\<close>

definition withCacheData ::
  "('t \<Rightarrow> bool) \<Rightarrow> (string \<rightharpoonup> 't) \<Rightarrow> string \<Rightarrow> ('s \<Rightarrow> (error + 't) \<times> 's)
     \<Rightarrow> ('t \<Rightarrow> error + 'r) \<Rightarrow> 's \<Rightarrow> (error + 'r) \<times> (string \<rightharpoonup> 't) \<times> 's" where
  "withCacheData truthy sandpackCdn request getData transform s =
     (case (case sandpackCdn request of
              None \<Rightarrow> None
            | Some data \<Rightarrow>
                if truthy data
                then (case transform data of Inl err \<Rightarrow> None | Inr r \<Rightarrow> Some r)
                else None) of
        Some r \<Rightarrow> (Inr r, sandpackCdn, s)
      | None \<Rightarrow>
          (case getData s of
             (Inl err, s') \<Rightarrow> (Inl err, sandpackCdn, s')
           | (Inr data, s') \<Rightarrow> (transform data, sandpackCdn(request \<mapsto> data), s')))"

section \<open>Dependency resolution (dependencies-installer.ts)\<close>

text \<open>
  What \<open>resolveDependencies\<close> reads of a parsed \<open>package.json\<close>: its \<open>dependencies\<close>
  and \<open>peerDependencies\<close> objects, when it has them.
\<close>

record packageJson =
  pj_dependencies :: "string dict option"
  pj_peerDependencies :: "string dict option"

text \<open>\<open>interface NPMSpawnOptions\<close>, without the progress callback.\<close>

record NPMSpawnOptions =
  options_cwd :: "string option"
  options_dependencies :: "string dict option"
  options_registryBaseUrl :: string

text \<open>The value \<open>resolvePackages\<close> resolves to; \<open>dependencies: null\<close> is \<open>None\<close>.\<close>

record resolved =
  packageJsonHash :: string
  dependencies :: "string dict option"

text \<open>
  The platform the installer runs on: \<open>localeCompare\<close>, \<open>JSON.parse\<close> (which throws on
  malformed text and may return \<open>null\<close>), \<open>process.cwd()\<close> (which throws where there is
  no \<open>process\<close>), the network, and the decoding of a response
  (\<open>response.arrayBuffer()\<close> followed by \<open>notepack.decode\<close>). \<open>fetch n url\<close> is the
  outcome of the request to \<open>url\<close> that is issued after \<open>n\<close> earlier requests.
\<close>

record 'resp env =
  localeCompare :: "string \<Rightarrow> string \<Rightarrow> int"
  JSON_parse :: "string \<Rightarrow> error + packageJson option"
  process_cwd :: "error + string"
  fetch :: "nat \<Rightarrow> string \<Rightarrow> error + 'resp"
  notepack_decode :: "'resp \<Rightarrow> error + string dict"

text \<open>
  The state of the module: the \<open>localCache\<close> map and the log of the network requests
  issued so far, one URL per call of \<open>fetch\<close>.
\<close>

record world =
  localCache :: "string \<rightharpoonup> resolved"
  requests :: "string list"

text \<open>
  \<open>fetchWithRetry(input, init, retries = 3, delay = 1000)\<close>: one request, and on a
  failure with retries left another round (the delay is not modelled).
\<close>

primrec fetchWithRetry ::
  "nat \<Rightarrow> 'resp env \<Rightarrow> string \<Rightarrow> world \<Rightarrow> (error + 'resp) \<times> world" where
  "fetchWithRetry 0 env input w =
     (fetch env (length (requests w)) input, w\<lparr>requests := requests w @ [input]\<rparr>)"
| "fetchWithRetry (Suc retries) env input w =
     (case fetch env (length (requests w)) input of
        Inr response \<Rightarrow> (Inr response, w\<lparr>requests := requests w @ [input]\<rparr>)
      | Inl err \<Rightarrow> fetchWithRetry retries env input (w\<lparr>requests := requests w @ [input]\<rparr>))"

text \<open>\<open>s.split(c)\<close> for a one-character separator.\<close>

fun splitOn :: "char \<Rightarrow> string \<Rightarrow> string list" where
  "splitOn c [] = [[]]"
| "splitOn c (x # xs) =
     (if x = c then [] # splitOn c xs
      else (case splitOn c xs of [] \<Rightarrow> [[x]] | y # ys \<Rightarrow> (x # y) # ys))"

text \<open>\<open>name.split('@').slice(0, -1).join('@')\<close>\<close>

definition stripMajor :: "string \<Rightarrow> string" where
  "stripMajor name = joinWith ''@'' (butlast (splitOn CHR ''@'' name))"

text \<open>\<open>{...acc, ...d}\<close> and \<open>Object.fromEntries\<close>.\<close>

definition objectSpread :: "'v dict \<Rightarrow> 'v dict \<Rightarrow> 'v dict" where
  "objectSpread acc d = fold (\<lambda>(k, v) a. dict_set k v a) d acc"

definition fromEntries :: "(string \<times> 'v) list \<Rightarrow> 'v dict" where
  "fromEntries es = objectSpread [] es"

text \<open>
  The \<open>getData\<close> callback of \<open>resolvePackages\<close>: the request with its retries, the
  decoding of the response into \<open>distTags\<close>, and the returned object. (The loop that
  fills \<open>versions\<close> and the first \<open>dependencies\<close> table only feeds a debug log.)
\<close>

definition fetchDependencies ::
  "'resp env \<Rightarrow> string \<Rightarrow> string \<Rightarrow> string \<Rightarrow> world \<Rightarrow> (error + resolved) \<times> world" where
  "fetchDependencies env registryBaseUrl requestPath newPackageJsonHash w =
     (case fetchWithRetry 3 env (registryBaseUrl @ requestPath) w of
        (Inl err, w') \<Rightarrow> (Inl err, w')
      | (Inr response, w') \<Rightarrow>
          (case notepack_decode env response of
             Inl err \<Rightarrow> (Inl err, w')
           | Inr distTags \<Rightarrow>
               (Inr \<lparr>packageJsonHash = newPackageJsonHash,
                     dependencies =
                       Some (fromEntries
                         (map (\<lambda>(name, version). (stripMajor name, version)) distTags))\<rparr>,
                w')))"

text \<open>\<open>sandpackClient.resolvePackages(registryBaseUrl, packages, packageJsonHash)\<close>\<close>

definition resolvePackages ::
  "'resp env \<Rightarrow> string \<Rightarrow> string dict \<Rightarrow> string \<Rightarrow> world \<Rightarrow> (error + resolved) \<times> world" where
  "resolvePackages env registryBaseUrl packages packageJsonHash' w =
     (let newPackageJsonHash = packagesHash (localeCompare env) packages
      in if newPackageJsonHash = packageJsonHash'
         then (Inr \<lparr>packageJsonHash = newPackageJsonHash, dependencies = None\<rparr>, w)
         else
           (let requestPath = ''/v2/deps/'' @ newPackageJsonHash
            in case withLocalCacheData (\<lambda>cachedData. True) (localCache w) requestPath
                      (fetchDependencies env registryBaseUrl requestPath newPackageJsonHash)
                      Inr w of
                 (r, cache', w') \<Rightarrow> (r, w'\<lparr>localCache := cache'\<rparr>)))"

text \<open>\<open>NPMInstaller.cwd\<close>: \<open>options?.cwd || fs.cwd() || process.cwd()\<close>\<close>

definition installerCwd ::
  "'resp env \<Rightarrow> FileSystemManager \<Rightarrow> NPMSpawnOptions \<Rightarrow> error + string" where
  "installerCwd env fs options =
     (case options_cwd options of
        Some c \<Rightarrow> if c \<noteq> [] then Inr c
                  else if cwd fs \<noteq> [] then Inr (cwd fs) else process_cwd env
      | None \<Rightarrow> if cwd fs \<noteq> [] then Inr (cwd fs) else process_cwd env)"

text \<open>
  \<open>NPMInstaller.getPackageJson\<close>: the file is parsed when its contents are not empty;
  otherwise the result is \<open>null\<close>.
\<close>

definition getPackageJson ::
  "'resp env \<Rightarrow> FileSystemManager \<Rightarrow> NPMSpawnOptions \<Rightarrow> error + packageJson option" where
  "getPackageJson env fs options =
     (case installerCwd env fs options of
        Inl err \<Rightarrow> Inl err
      | Inr dir \<Rightarrow>
          (let packageJsonPath = join [dir, ''package.json''];
               content = readFile fs packageJsonPath
           in if content \<noteq> [] then JSON_parse env content else Inr None))"

text \<open>
  The merged dependency map \<open>allDependencies\<close>: \<open>dependencies\<close>, then
  \<open>peerDependencies\<close>, then the dependencies of the options, each \<open>{}\<close> when missing.
\<close>

definition orEmpty :: "'v dict option \<Rightarrow> 'v dict" where
  "orEmpty d = (case d of None \<Rightarrow> [] | Some x \<Rightarrow> x)"

definition allDependencies :: "packageJson option \<Rightarrow> NPMSpawnOptions \<Rightarrow> string dict" where
  "allDependencies packageJson options =
     objectSpread
       (objectSpread
          (objectSpread [] (orEmpty (case packageJson of None \<Rightarrow> None
                                     | Some pj \<Rightarrow> pj_dependencies pj)))
          (orEmpty (case packageJson of None \<Rightarrow> None | Some pj \<Rightarrow> pj_peerDependencies pj)))
       (orEmpty (options_dependencies options))"

definition packageJsonHashPath :: string where
  "packageJsonHashPath = ''/~system/package-json-hash''"

text \<open>
  \<open>NPMInstaller.resolveDependencies(fs, options)\<close>: the outcome, the file system and
  the state of the module after the call. An exception leaves the file system as it was.
\<close>

definition resolveDependencies ::
  "'resp env \<Rightarrow> FileSystemManager \<Rightarrow> NPMSpawnOptions \<Rightarrow> world
     \<Rightarrow> (error + string dict option) \<times> FileSystemManager \<times> world" where
  "resolveDependencies env fs options w =
     (case getPackageJson env fs options of
        Inl err \<Rightarrow> (Inl err, fs, w)
      | Inr packageJson \<Rightarrow>
          (case resolvePackages env (options_registryBaseUrl options)
                  (allDependencies packageJson options) (readFile fs packageJsonHashPath) w of
             (Inl err, w') \<Rightarrow> (Inl err, fs, w')
           | (Inr res, w') \<Rightarrow>
               (Inr (dependencies res),
                writeFile fs packageJsonHashPath (packageJsonHash res), w')))"

text \<open>
  The local cache is keyed consistently when every entry stored under the request
  path of a fingerprint carries that fingerprint, as the entries \<open>resolvePackages\<close>
  stores do.
\<close>

definition cacheConsistent :: "(string \<rightharpoonup> resolved) \<Rightarrow> bool" where
  "cacheConsistent cache =
     (\<forall>h res. cache (''/v2/deps/'' @ h) = Some res \<longrightarrow> packageJsonHash res = h)"

text \<open>
  The initial state of the module, two sample platforms (one without network, one whose
  registry answers every request with the tags \<open>{"x@1": "1.2.3"}\<close>) and sample options.
\<close>

definition emptyWorld :: world where
  "emptyWorld = \<lparr>localCache = Map.empty, requests = []\<rparr>"

definition offlineEnv :: "string env" where
  "offlineEnv =
     \<lparr>localeCompare = rootCollation,
      JSON_parse = (\<lambda>text. Inl (Error ''SyntaxError'')),
      process_cwd = Inl (Error ''process is not defined''),
      fetch = (\<lambda>n url. Inl (Error ''Failed to fetch'')),
      notepack_decode = (\<lambda>response. Inl (Error ''decode''))\<rparr>"

definition cdnEnv :: "string env" where
  "cdnEnv =
     \<lparr>localeCompare = rootCollation,
      JSON_parse = (\<lambda>text. Inl (Error ''SyntaxError'')),
      process_cwd = Inl (Error ''process is not defined''),
      fetch = (\<lambda>n url. Inr ''response''),
      notepack_decode = (\<lambda>response. Inr [(''x@1'', ''1.2.3'')])\<rparr>"

definition sampleOptions :: NPMSpawnOptions where
  "sampleOptions =
     \<lparr>options_cwd = None, options_dependencies = Some [(''x'', ''1'')],
      options_registryBaseUrl = ''https://cdn.example''\<rparr>"

section \<open>The in-worker handler (worker.ts)\<close>

text \<open>\<open>type IPCStatus = 'resolve' | 'reject' | 'progress'\<close>\<close>

datatype IPCStatus = Resolve | Reject | Progress

text \<open>
  The diagnostics of the engine: \<open>Location\<close>, \<open>Note\<close> and \<open>Message\<close>. The numbers of
  a location are natural numbers; a \<open>null\<close> or missing location or list of notes is
  \<open>None\<close>.
\<close>

record Location =
  loc_file :: string
  loc_line :: nat
  loc_column :: nat
  loc_length :: nat
  loc_lineText :: string

record Note =
  note_text :: string
  note_location :: "Location option"

record Message =
  msg_text :: string
  msg_location :: "Location option"
  msg_notes :: "Note list option"

record FormatMessagesOptions =
  opt_kind :: string
  opt_color :: bool

text \<open>
  The engine as the handler uses it when a request has been rejected: its optional
  \<open>formatMessages\<close> (added in version 0.10.1), whose promise may be rejected.
\<close>

record API =
  api_formatMessages ::
    "(Message list \<Rightarrow> FormatMessagesOptions \<Rightarrow> error + string list) option"

text \<open>The decimal numeral of a number, \<open>padStart(5)\<close>, and the escape character.\<close>

function showNat :: "nat \<Rightarrow> string" where
  "showNat n =
     (if n < 10 then [char_of (48 + n)] else showNat (n div 10) @ [char_of (48 + n mod 10)])"
  by pat_completeness auto
termination
  by (relation "measure (\<lambda>n. n)") auto

definition padStart5 :: "string \<Rightarrow> string" where
  "padStart5 s = replicate (5 - length s) CHR '' '' @ s"

definition ESC :: string where
  "ESC = [CHR 0x1B]"

text \<open>
  The fallback \<open>format(kind, text, location)\<close> for engines without \<open>formatMessages\<close>.
  The box-drawing characters are given by the bytes of their UTF-8 encoding.
\<close>

definition format :: "string \<Rightarrow> string \<Rightarrow> Location option \<Rightarrow> string" where
  "format kind text' location =
     (if kind = ''note'' then ''   '' else ESC @ ''[1m > '')
     @ (case location of
          None \<Rightarrow> []
        | Some l \<Rightarrow> loc_file l @ '':'' @ showNat (loc_line l) @ '':''
                     @ showNat (loc_column l) @ '': '')
     @ (if kind = ''error'' then ESC @ ''[31merror:'' @ ESC @ ''[1m ''
        else if kind = ''warning'' then ESC @ ''[35mwarning:'' @ ESC @ ''[1m ''
        else ESC @ ''[1mnote:'' @ ESC @ ''[0m '')
     @ text' @ ESC @ ''[0m'' @ [CHR 0x0A]
     @ (case location of
          None \<Rightarrow> []
        | Some l \<Rightarrow>
            (let prefix = padStart5 (showNat (loc_line l))
             in ESC @ ''[37m'' @ prefix @ '' '' @ [CHR 0xE2, CHR 0x94, CHR 0x82] @ '' ''
                  @ take (loc_column l) (loc_lineText l)
                @ ESC @ ''[32m'' @ take (loc_length l) (drop (loc_column l) (loc_lineText l))
                @ ESC @ ''[37m'' @ drop (loc_column l + loc_length l) (loc_lineText l)
                @ [CHR 0x0A]
                @ replicate (length prefix) CHR '' '' @ '' ''
                  @ [CHR 0xE2, CHR 0x95, CHR 0xB5] @ '' '' @ ESC @ ''[32m''
                  @ replicate (loc_column l) CHR '' ''
                  @ (if loc_length l > 1 then replicate (loc_length l) CHR ''~'' else ''^'')
                  @ ESC @ ''[0m'' @ [CHR 0x0A]))"

text \<open>\<open>formatMessages(api, messages, options)\<close>\<close>

definition formatMessages ::
  "API \<Rightarrow> Message list \<Rightarrow> FormatMessagesOptions \<Rightarrow> error + string list" where
  "formatMessages api messages options =
     (case api_formatMessages api of
        Some f \<Rightarrow> f messages options
      | None \<Rightarrow>
          Inr (map (\<lambda>msg.
                  format (opt_kind options) (msg_text msg) (msg_location msg)
                  @ concat (map (\<lambda>note. format ''note'' (note_text note) (note_location note))
                      (case msg_notes msg of None \<Rightarrow> [] | Some ns \<Rightarrow> ns))
                  @ [CHR 0x0A])
               messages))"

text \<open>\<open>s.indexOf(sub)\<close>, \<open>s.includes(sub)\<close> and \<open>s.replace(/\x1B\[[^m]*m/g, '')\<close>.\<close>

fun indexOf :: "string \<Rightarrow> string \<Rightarrow> nat option" where
  "indexOf [] sub = (if sub = [] then Some 0 else None)"
| "indexOf (c # cs) sub =
     (if startsWith (c # cs) sub then Some 0 else map_option Suc (indexOf cs sub))"

definition str_includes :: "string \<Rightarrow> string \<Rightarrow> bool" where
  "str_includes s sub = (indexOf s sub \<noteq> None)"

function stripAnsi :: "string \<Rightarrow> string" where
  "stripAnsi [] = []"
| "stripAnsi (c # cs) =
     (if c = CHR 0x1B \<and> startsWith cs ''['' \<and> CHR ''m'' \<in> set (drop 1 cs)
      then stripAnsi (drop 1 (dropWhile (\<lambda>x. x \<noteq> CHR ''m'') (drop 1 cs)))
      else c # stripAnsi cs)"
  by pat_completeness auto
termination
proof (relation "measure length", goal_cases)
  case 1
  show ?case by simp
next
  case (2 c cs)
  have "length (dropWhile (\<lambda>x. x \<noteq> CHR ''m'') (drop 1 cs)) \<le> length (drop 1 cs)"
    by (rule length_dropWhile_le)
  then show ?case by simp
next
  case (3 c cs)
  show ?case by simp
qed

text \<open>
  \<open>mergeStderrStreams(formatted, stderr)\<close>. The loop overwrites the entries of
  \<open>formatted\<close> that are found in \<open>stderr\<close> (with or without their escape codes) with
  the empty string, and puts the coloured text in place of the plain one in \<open>stderr\<close>.
\<close>

fun mergeLoop :: "string list \<Rightarrow> string \<Rightarrow> string list \<times> string" where
  "mergeLoop [] stderr = ([], stderr)"
| "mergeLoop (f # rest) stderr =
     (if str_includes stderr f
      then (case mergeLoop rest stderr of (rest', stderr') \<Rightarrow> ([] # rest', stderr'))
      else
        (let replaced = stripAnsi f
         in case indexOf stderr replaced of
              Some index \<Rightarrow>
                (case mergeLoop rest
                        (take index stderr @ f @ drop (index + length replaced) stderr) of
                   (rest', stderr') \<Rightarrow> ([] # rest', stderr'))
            | None \<Rightarrow>
                (case mergeLoop rest stderr of (rest', stderr') \<Rightarrow> (f # rest', stderr'))))"

definition mergeStderrStreams :: "string list \<Rightarrow> string \<Rightarrow> string" where
  "mergeStderrStreams formatted stderr =
     (case mergeLoop formatted stderr of
        (formatted', stderr') \<Rightarrow> concat (filter (\<lambda>s. s \<noteq> []) formatted') @ stderr')"

text \<open>
  The rejection \<open>err\<close> handed to \<open>respondWithError\<close>: its rendering \<open>err + ''\<close> and
  its \<open>errors\<close> and \<open>warnings\<close> arrays when it has them (an array, even an empty one,
  is truthy; a value without such arrays, \<open>null\<close> included, has \<open>None\<close> twice).
\<close>

record rejection =
  rej_string :: string
  rej_errors :: "Message list option"
  rej_warnings :: "Message list option"

text \<open>The object \<open>{errors, warnings}\<close> and the response \<open>{stderr_, stdout}\<close>.\<close>

record diagnostics =
  diag_errors :: "Message list option"
  diag_warnings :: "Message list option"

record errorResponse =
  stderr_ :: string
  stdout :: string

text \<open>
  \<open>errors\<close> after \<open>if (!errors && !warnings) errors = [{text: err + ''}]\<close>, and an
  element of the array given to \<open>Promise.all\<close>:
  \<open>messages ? formatMessages(this, messages, {kind, color}) : []\<close>.
\<close>

definition errorsOf :: "rejection \<Rightarrow> Message list option" where
  "errorsOf err =
     (if rej_errors err = None \<and> rej_warnings err = None
      then Some [\<lparr>msg_text = rej_string err, msg_location = None, msg_notes = None\<rparr>]
      else rej_errors err)"

definition formatIfAny ::
  "API \<Rightarrow> Message list option \<Rightarrow> string \<Rightarrow> bool \<Rightarrow> error + string list" where
  "formatIfAny api messages kind color =
     (case messages of
        None \<Rightarrow> Inr []
      | Some ms \<Rightarrow> formatMessages api ms \<lparr>opt_kind = kind, opt_color = color\<rparr>)"

text \<open>
  \<open>respondWithError(respond, err)\<close>: the message posted by \<open>respond\<close>, when one is
  posted. \<open>respond\<close> is called in the \<open>then\<close> of \<open>Promise.all\<close>, which has no
  \<open>catch\<close>: when the formatting of the errors or of the warnings is rejected, nothing
  is posted. \<open>JSON.stringify\<close> is a parameter.
\<close>

definition respondWithError ::
  "(diagnostics \<Rightarrow> string) \<Rightarrow> API \<Rightarrow> bool \<Rightarrow> rejection
     \<Rightarrow> (IPCStatus \<times> errorResponse) option" where
  "respondWithError JSON_stringify api color err =
     (let errors = errorsOf err;
          warnings = rej_warnings err
      in case formatIfAny api errors ''error'' color of
           Inl reason \<Rightarrow> None
         | Inr fmterrors \<Rightarrow>
             (case formatIfAny api warnings ''warning'' color of
                Inl reason \<Rightarrow> None
              | Inr fmtwarnings \<Rightarrow>
                  Some (Resolve,
                        \<lparr>stderr_ = mergeStderrStreams (fmterrors @ fmtwarnings) '''',
                         stdout = JSON_stringify
                           \<lparr>diag_errors = errors, diag_warnings = warnings\<rparr>\<rparr>)))"

text \<open>
  For the examples: a rendering that stands in for \<open>JSON.stringify\<close> on
  \<open>{errors, warnings}\<close> (it writes the texts of the messages only), and an engine whose
  service has stopped, so that \<open>formatMessages\<close> is rejected.
\<close>

definition sampleStringify :: "diagnostics \<Rightarrow> string" where
  "sampleStringify d =
     (let render = (\<lambda>ms. ''['' @ joinWith '','' (map (\<lambda>m. ''{text:'' @ msg_text m @ ''}'') ms)
                      @ '']'')
      in ''{''
         @ joinWith '',''
             ((case diag_errors d of None \<Rightarrow> [] | Some ms \<Rightarrow> [''errors:'' @ render ms])
              @ (case diag_warnings d of None \<Rightarrow> [] | Some ms \<Rightarrow> [''warnings:'' @ render ms]))
         @ ''}'')"

definition stoppedApi :: API where
  "stoppedApi =
     \<lparr>api_formatMessages = Some (\<lambda>ms options. Inl (Error ''The service was stopped''))\<rparr>"

section \<open>The waiting table of the worker pool (ipc.ts)\<close>

text \<open>
  A promise is pending, fulfilled with a value or rejected with a reason; once settled
  it stays as it is. A task is rejected either with an \<open>Error\<close> object (its message)
  or with the payload of a worker's \<open>reject\<close> response.
\<close>

datatype 'a reason = ErrorObject string | WorkerPayload 'a

datatype 'a settled = Pending | Fulfilled 'a | Rejected "'a reason"

text \<open>
  An entry \<open>{resolve, reject, progress?}\<close> of \<open>waitingPromise\<close>. Its callbacks are
  closures over the worker to give back and over the promise of the task, kept here as
  numbers; \<open>entry_progress\<close> tells whether a progress callback was supplied.
\<close>

record waitingEntry =
  entry_promise :: nat
  entry_worker :: nat
  entry_progress :: bool

text \<open>
  The state of the module: the waiting table, the idle workers, the promises handed out
  by \<open>sendIPC\<close> (a task's promise is the next index), and the progress data delivered
  to the callers' callbacks.
\<close>

record 'a pool =
  waitingPromise :: "waitingEntry dict"
  availableWorkers :: "nat list"
  promises :: "'a settled list"
  delivered :: "(nat \<times> 'a) list"

definition initialPool :: "'a pool" where
  "initialPool = \<lparr>waitingPromise = [], availableWorkers = [], promises = [], delivered = []\<rparr>"

text \<open>\<open>promiseResolve\<close> and \<open>promiseReject\<close>: they settle a pending promise only.\<close>

definition settlePromise :: "nat \<Rightarrow> 'a settled \<Rightarrow> 'a settled list \<Rightarrow> 'a settled list" where
  "settlePromise p v ps = (if p < length ps \<and> ps ! p = Pending then ps[p := v] else ps)"

text \<open>The callbacks \<open>resolve\<close>, \<open>reject\<close> and \<open>progress\<close> of an entry.\<close>

definition entryResolve :: "'a pool \<Rightarrow> waitingEntry \<Rightarrow> 'a \<Rightarrow> 'a pool" where
  "entryResolve s e data =
     s\<lparr>availableWorkers := availableWorkers s @ [entry_worker e],
       promises := settlePromise (entry_promise e) (Fulfilled data) (promises s)\<rparr>"

definition entryReject :: "'a pool \<Rightarrow> waitingEntry \<Rightarrow> 'a reason \<Rightarrow> 'a pool" where
  "entryReject s e err =
     s\<lparr>availableWorkers := availableWorkers s @ [entry_worker e],
       promises := settlePromise (entry_promise e) (Rejected err) (promises s)\<rparr>"

definition entryProgress :: "'a pool \<Rightarrow> waitingEntry \<Rightarrow> 'a \<Rightarrow> 'a pool" where
  "entryProgress s e data =
     (if entry_progress e then s\<lparr>delivered := delivered s @ [(entry_promise e, data)]\<rparr>
      else s)"

text \<open>
  The body of the task \<open>sendIPC\<close> adds to the pool queue: a worker is taken from the
  end of the idle list, the task is registered under its id (drawn by the
  environment) and its promise returned.
\<close>

definition sendIPC :: "'a pool \<Rightarrow> string \<Rightarrow> bool \<Rightarrow> error + (nat \<times> 'a pool)" where
  "sendIPC s id' progress =
     (if availableWorkers s = [] then Inl (Error ''No available worker'')
      else
        (let worker = last (availableWorkers s);
             promise = length (promises s)
         in Inr (promise,
                 s\<lparr>availableWorkers := butlast (availableWorkers s),
                   promises := promises s @ [Pending],
                   waitingPromise :=
                     dict_set id'
                       \<lparr>entry_promise = promise, entry_worker = worker,
                        entry_progress = progress\<rparr>
                       (waitingPromise s)\<rparr>)))"

text \<open>
  A message of a worker: an array \<open>[id, status, data]\<close> of three elements, or anything
  else. \<open>worker.onmessage\<close> after the set-up routes it through the waiting table.
\<close>

datatype 'a workerMessage = Response string IPCStatus 'a | Malformed

definition onmessage :: "'a pool \<Rightarrow> 'a workerMessage \<Rightarrow> 'a pool" where
  "onmessage s m =
     (case m of
        Malformed \<Rightarrow> s
      | Response id' status data \<Rightarrow>
          (case dict_get (waitingPromise s) id' of
             None \<Rightarrow> s
           | Some e \<Rightarrow>
               (let s1 = (case status of
                            Resolve \<Rightarrow> entryResolve s e data
                          | Reject \<Rightarrow> entryReject s e (WorkerPayload data)
                          | Progress \<Rightarrow> entryProgress s e data)
                in if status = Resolve \<or> status = Reject
                   then s1\<lparr>waitingPromise := dict_delete id' (waitingPromise s1)\<rparr>
                   else s1)))"

text \<open>
  The first step of \<open>reloadWorkerPool\<close>, "abort all pending promises": every entry of
  \<open>Object.entries(waitingPromise)\<close> is rejected and deleted. The last step installs
  the new workers as the idle list.
\<close>

definition reloadReason :: "'a reason" where
  "reloadReason = ErrorObject ''Task aborted due to reload''"

definition abortEntry :: "string \<times> waitingEntry \<Rightarrow> 'a pool \<Rightarrow> 'a pool" where
  "abortEntry = (\<lambda>(id', entry) s.
     (let s1 = entryReject s entry reloadReason
      in s1\<lparr>waitingPromise := dict_delete id' (waitingPromise s1)\<rparr>))"

definition abortPending :: "'a pool \<Rightarrow> 'a pool" where
  "abortPending s = fold abortEntry (waitingPromise s) s"

definition installWorkers :: "'a pool \<Rightarrow> nat list \<Rightarrow> 'a pool" where
  "installWorkers s workers = s\<lparr>availableWorkers := workers\<rparr>"

text \<open>What the module can do in one step, and the states it can reach.\<close>

inductive step :: "'a pool \<Rightarrow> 'a pool \<Rightarrow> bool" where
  submit: "sendIPC s id' progress = Inr (p, s') \<Longrightarrow> step s s'"
| message: "step s (onmessage s m)"
| abort: "step s (abortPending s)"
| install: "step s (installWorkers s workers)"

inductive reachable :: "'a pool \<Rightarrow> bool" where
  initial: "reachable initialPool"
| next_step: "reachable s \<Longrightarrow> step s s' \<Longrightarrow> reachable s'"

text \<open>
  The invariant of the waiting table: every entry waits on a pending promise of its
  own. And what every step preserves: the promises already handed out are still there,
  and a settled promise is as it was.
\<close>

definition poolInv :: "'a pool \<Rightarrow> bool" where
  "poolInv s =
     ((\<forall>x\<in>set (waitingPromise s).
         entry_promise (snd x) < length (promises s)
         \<and> promises s ! entry_promise (snd x) = Pending)
      \<and> inj_on (\<lambda>x. entry_promise (snd x)) (set (waitingPromise s)))"

definition keepsSettled :: "'a pool \<Rightarrow> 'a pool \<Rightarrow> bool" where
  "keepsSettled s s' =
     (length (promises s) \<le> length (promises s')
      \<and> (\<forall>p<length (promises s).
            promises s ! p \<noteq> Pending \<longrightarrow> promises s' ! p = promises s ! p))"

section \<open>Facts about dictionaries and paths\<close>

lemma map_of_insertIndex: "map_of (insertIndex k v d) = (map_of d)(k \<mapsto> v)"
  by (induction d) (auto simp: fun_eq_iff)

lemma map_of_replace:
  "map_of (map (\<lambda>(k', v'). if k' = k then (k', v) else (k', v')) d) x =
     (if x = k \<and> map_of d k \<noteq> None then Some v else map_of d x)"
  by (induction d) (auto split: if_splits)

lemma map_of_dict_set: "map_of (dict_set k v d) = (map_of d)(k \<mapsto> v)"
proof (rule ext)
  fix x
  show "map_of (dict_set k v d) x = ((map_of d)(k \<mapsto> v)) x"
  proof (cases "map_of d k = None")
    case True
    then show ?thesis
      by (auto simp: dict_set_def dict_has_def map_of_insertIndex map_add_def
            split: option.splits)
  next
    case False
    then show ?thesis
      by (simp add: dict_set_def dict_has_def map_of_replace)
  qed
qed

lemma dict_get_dict_set:
  "dict_get (dict_set k v d) k' = (if k' = k then Some v else dict_get d k')"
  by (simp add: dict_get_def map_of_dict_set)

lemma absPath_slash: "absPath (CHR ''/'' # p) = p"
  by (simp add: absPath_def startsWith_def)

lemma absPath_id: "\<not> startsWith p ''/'' \<Longrightarrow> absPath p = p"
  by (simp add: absPath_def)

lemma projectFiles_writeFile:
  "projectFiles (writeFile fs p c) =
     dict_set (absPath p) (spreadContents (dict_get (projectFiles fs) (absPath p)) c)
       (projectFiles fs)"
  by (cases fs) (simp add: Let_def)


lemma contentsOrEmpty_eq:
  "contentsOrEmpty x = (case x of None \<Rightarrow> [] | Some f \<Rightarrow> contents f)"
  by (simp add: contentsOrEmpty_def split: option.splits)

section \<open>Properties of the virtual file system\<close>

text \<open>
  C9. \<open>readFile\<close> is a total function of the file system and the path (nothing in it
  can throw: the optional chaining guards the missing record). It returns the stored
  contents when the normalised path is a key of \<open>projectFiles\<close> and the empty string
  when it is absent; so reading a missing file gives the same result as reading it after
  it has been written with empty contents.
\<close>

theorem readFile_contents_or_empty:
  "readFile fs p =
     (case dict_get (projectFiles fs) (absPath p) of
        None \<Rightarrow> ''''
      | Some f \<Rightarrow> contents f)
   \<and> (if exists fs p then True
      else readFile fs p = '''' \<and> readFile (writeFile fs p '''') p = readFile fs p)"
  by (auto simp: readFile_def contentsOrEmpty_eq exists_def dict_has_def dict_get_def
        projectFiles_writeFile map_of_dict_set spreadContents_def Let_def
      split: option.splits)

theorem readFile_contents_or_empty_witness:
  "readFile (newFileSystemManager None) ''/a/b'' = ''''
   \<and> readFile (writeFile (newFileSystemManager None) ''/a/b'' '''') ''/a/b'' = ''''
   \<and> readFile (writeFile (newFileSystemManager None) ''/a/b'' ''x'') ''/a/b'' = ''x''"
  using readFile_contents_or_empty [of "newFileSystemManager None" "''/a/b''"]
    readFile_contents_or_empty [of "writeFile (newFileSystemManager None) ''/a/b'' ''x''" "''/a/b''"]
  by (simp add: newFileSystemManager_def exists_def dict_has_def dict_get_def absPath_def
        startsWith_def dict_set_def isArrayIndex_def isDigit_def spreadContents_def Let_def)



lemma setFilesLocal_slash:
  "list_all (\<lambda>(k, f). \<not> startsWith k ''/'') es \<Longrightarrow>
   setFilesLocal (map (\<lambda>(k, f). (CHR ''/'' # k, f)) es) pf = setFilesLocal es pf"
proof (induction es arbitrary: pf)
  case Nil
  show ?case by (simp add: setFilesLocal_def)
next
  case (Cons e es)
  obtain k f where e: "e = (k, f)" by (cases e)
  from Cons.prems e have k: "absPath k = k" and rest: "list_all (\<lambda>(k, f). \<not> startsWith k ''/'') es"
    by (simp_all add: absPath_id)
  have step: "setFilesLocal (x # xs) pf = setFilesLocal xs
      (dict_set (absPath (fst x)) (spreadFile (dict_get pf (absPath (fst x))) (snd x)) pf)"
    for x xs
    by (cases x) (simp add: setFilesLocal_def Let_def)
  show ?case
    using Cons.IH [OF rest] by (simp add: e step absPath_slash k)
qed

lemma setFiles_slash:
  "list_all (\<lambda>(k, f). \<not> startsWith k ''/'') es \<Longrightarrow>
   setFiles fs (map (\<lambda>(k, f). (CHR ''/'' # k, f)) es) = setFiles fs es"
  by (induction fs) (auto simp: setFilesLocal_slash intro!: option.map_cong)

text \<open>
  C6 (as amended). \<open>absPath\<close> strips one leading slash. For a path \<open>p\<close> that does
  not itself begin with a slash, every operation of the file system behaves on \<open>/p\<close>
  as on \<open>p\<close>: the queries return the same value and the mutations the same file system
  (the remote included); for \<open>setFiles\<close>, prefixing every key of the files object with a
  slash changes nothing. In particular \<open>writeFile("/a/b", "x")\<close> followed by
  \<open>readFile("a/b")\<close> yields \<open>"x"\<close>, and \<open>exists\<close> holds of both \<open>a/b\<close> and \<open>/a/b\<close>.
\<close>

theorem leading_slash_is_ignored:
  assumes "\<not> startsWith p ''/''"
    and "list_all (\<lambda>(k, f). \<not> startsWith k ''/'') es"
  shows "exists fs (CHR ''/'' # p) = exists fs p
    \<and> readFile fs (CHR ''/'' # p) = readFile fs p
    \<and> writeFile fs (CHR ''/'' # p) c = writeFile fs p c
    \<and> appendFile fs (CHR ''/'' # p) c = appendFile fs p c
    \<and> readdir fs (CHR ''/'' # p) = readdir fs p
    \<and> isDirectory fs (CHR ''/'' # p) = isDirectory fs p
    \<and> deleteFile fs (CHR ''/'' # p) = deleteFile fs p
    \<and> rmdir fs (CHR ''/'' # p) = rmdir fs p
    \<and> setFiles fs (map (\<lambda>(k, f). (CHR ''/'' # k, f)) es) = setFiles fs es
    \<and> readFile (writeFile fs ''/a/b'' ''x'') ''a/b'' = ''x''
    \<and> exists (writeFile fs ''/a/b'' ''x'') ''a/b''
    \<and> exists (writeFile fs ''/a/b'' ''x'') ''/a/b''"
proof -
  have same: "absPath (CHR ''/'' # p) = absPath p"
    using assms(1) by (simp add: absPath_slash absPath_id)
  have wf: "writeFile fs (CHR ''/'' # p) c = writeFile fs p c"
    by (cases fs) (simp add: same)
  have af: "appendFile fs (CHR ''/'' # p) c = appendFile fs p c"
    by (simp add: same)
  have rd: "readdir fs (CHR ''/'' # p) = readdir fs p"
    by (simp add: readdir_def same)
  have ab: "absPath ''/a/b'' = ''a/b''" "absPath ''a/b'' = ''a/b''"
    by (simp_all add: absPath_def startsWith_def)
  have scen: "dict_get (projectFiles (writeFile fs ''/a/b'' ''x'')) ''a/b''
      = Some (spreadContents (dict_get (projectFiles fs) ''a/b'') ''x'')"
    by (simp add: projectFiles_writeFile dict_get_dict_set ab)
  have c_scen: "contents (spreadContents (dict_get (projectFiles fs) ''a/b'') ''x'') = ''x''"
    by (simp add: spreadContents_def split: option.splits)
  show ?thesis
    using wf af rd scen c_scen
    by (simp add: exists_def readFile_def isDirectory_def deleteFile_def rmdir_def same
          setFiles_slash [OF assms(2)] ab dict_has_def dict_get_def contentsOrEmpty_eq
        del: appendFile.simps)
qed

theorem leading_slash_is_ignored_witness:
  "\<not> startsWith ''a/b'' ''/''
   \<and> list_all (\<lambda>(k, f). \<not> startsWith k ''/'')
        [(''a/b'', \<lparr>contents = ''y'', isEntry = None, jsEntry = None\<rparr>)]
   \<and> exists (newFileSystemManager None) ''/a/b'' = exists (newFileSystemManager None) ''a/b''
   \<and> writeFile (newFileSystemManager None) ''/a/b'' ''x''
       = writeFile (newFileSystemManager None) ''a/b'' ''x''
   \<and> appendFile (newFileSystemManager None) ''/a/b'' ''x''
       = appendFile (newFileSystemManager None) ''a/b'' ''x''
   \<and> setFiles (newFileSystemManager None)
        [(''/a/b'', \<lparr>contents = ''y'', isEntry = None, jsEntry = None\<rparr>)]
       = setFiles (newFileSystemManager None)
        [(''a/b'', \<lparr>contents = ''y'', isEntry = None, jsEntry = None\<rparr>)]
   \<and> readFile (writeFile (newFileSystemManager None) ''/a/b'' ''x'') ''a/b'' = ''x''
   \<and> exists (writeFile (newFileSystemManager None) ''/a/b'' ''x'') ''a/b''
   \<and> exists (writeFile (newFileSystemManager None) ''/a/b'' ''x'') ''/a/b''"
proof -
  have h1: "\<not> startsWith ''a/b'' ''/''" by (simp add: startsWith_def)
  have h2: "list_all (\<lambda>(k, f). \<not> startsWith k ''/'')
      [(''a/b'', \<lparr>contents = ''y'', isEntry = None, jsEntry = None\<rparr>)]"
    by (simp add: startsWith_def)
  show ?thesis
    using h1 h2
      leading_slash_is_ignored [OF h1 h2, of "newFileSystemManager None" "''x''",
        unfolded list.map prod.case]
    by blast
qed

text \<open>
  C6 as stated fails for a path that begins with a slash: after \<open>writeFile("/a", "x")\<close>
  the file exists under \<open>/a\<close> but not under \<open>//a\<close>, and \<open>readFile\<close> returns \<open>"x"\<close> for
  the first and the empty string for the second.
\<close>

theorem leading_slash_counterexample:
  "exists (writeFile (newFileSystemManager None) ''/a'' ''x'') ''/a''
   \<and> \<not> exists (writeFile (newFileSystemManager None) ''/a'' ''x'') (CHR ''/'' # ''/a'')
   \<and> readFile (writeFile (newFileSystemManager None) ''/a'' ''x'') ''/a'' = ''x''
   \<and> readFile (writeFile (newFileSystemManager None) ''/a'' ''x'') (CHR ''/'' # ''/a'') = ''''"
  by (simp add: newFileSystemManager_def exists_def readFile_def absPath_def startsWith_def
        dict_set_def dict_has_def dict_get_def isArrayIndex_def isDigit_def spreadContents_def
        contentsOrEmpty_def)

text \<open>
  C1. The remote does not mirror the local file system. On a fresh file system bound to
  a fresh remote, \<open>appendFile("a", "x")\<close> leaves \<open>"x"\<close> locally and \<open>"xx"\<close> on the remote
  (the write is forwarded by \<open>writeFile\<close> and then the append again by \<open>appendFile\<close>);
  and \<open>deleteFile\<close>, hence \<open>rmdir\<close>, is not forwarded at all: after
  \<open>writeFile("a", "x")\<close> and \<open>deleteFile("a")\<close> (or \<open>rmdir("a")\<close>) the local file system
  is empty and the remote still holds the file.
\<close>

theorem remote_diverges_on_append_and_delete:
  "rawFiles (appendFile (newFileSystemManager (Some (newFileSystemManager None))) ''a'' ''x'')
     = [(''a'', ''x'')]
   \<and> map_option rawFiles
        (remote (appendFile (newFileSystemManager (Some (newFileSystemManager None))) ''a'' ''x''))
     = Some [(''a'', ''xx'')]
   \<and> rawFiles (deleteFile
        (writeFile (newFileSystemManager (Some (newFileSystemManager None))) ''a'' ''x'') ''a'')
     = []
   \<and> map_option rawFiles (remote (deleteFile
        (writeFile (newFileSystemManager (Some (newFileSystemManager None))) ''a'' ''x'') ''a''))
     = Some [(''a'', ''x'')]
   \<and> rawFiles (rmdir
        (writeFile (newFileSystemManager (Some (newFileSystemManager None))) ''a'' ''x'') ''a'')
     = []
   \<and> map_option rawFiles (remote (rmdir
        (writeFile (newFileSystemManager (Some (newFileSystemManager None))) ''a'' ''x'') ''a''))
     = Some [(''a'', ''x'')]"
  by (simp add: newFileSystemManager_def rawFiles_def deleteFile_def rmdir_def readdir_def
        fileNames_def dict_keys_def dict_delete_def absPath_def startsWith_def
        dict_set_def dict_has_def dict_get_def isArrayIndex_def isDigit_def spreadContents_def
        contentsOrEmpty_def Let_def)

section \<open>Properties of the packages fingerprint\<close>

























section \<open>Properties of the package cache\<close>

text \<open>
  C7. In both cache tiers, when \<open>transform\<close> throws on a cached (truthy) value, the
  exception is swallowed and \<open>getData\<close> is called: when it delivers \<open>data\<close>, the data
  are stored under the request and the outcome of the call is that of \<open>transform\<close> on
  the fresh data; when it fails, the call fails with the error of the fetch. The
  exception \<open>err\<close> raised on the cached value decides nothing.
\<close>

theorem corrupted_cache_refetches:
  assumes "cache request = Some cached" and "truthy cached" and "transform cached = Inl err"
  shows "(getData s = (Inr data, s') \<longrightarrow>
            withCacheData truthy cache request getData transform s
              = (transform data, cache(request \<mapsto> data), s')
          \<and> withLocalCacheData truthy cache request getData transform s
              = (transform data, cache(request \<mapsto> data), s'))
       \<and> (getData s = (Inl err', s') \<longrightarrow>
            withCacheData truthy cache request getData transform s = (Inl err', cache, s')
          \<and> withLocalCacheData truthy cache request getData transform s = (Inl err', cache, s'))"
  using assms by (simp add: withCacheData_def withLocalCacheData_def)

theorem corrupted_cache_refetches_witness:
  "withCacheData (\<lambda>d. d \<noteq> '''') [''/v2/mod/eEAx'' \<mapsto> ''bad''] ''/v2/mod/eEAx''
      (\<lambda>n :: nat. (Inr ''good'', Suc n))
      (\<lambda>d. if d = ''bad'' then Inl (Error ''corrupt'') else Inr (length d)) 0
     = (Inr 4, [''/v2/mod/eEAx'' \<mapsto> ''good''], 1)
   \<and> withLocalCacheData (\<lambda>d. d \<noteq> '''') [''/v2/mod/eEAx'' \<mapsto> ''bad''] ''/v2/mod/eEAx''
      (\<lambda>n :: nat. (Inr ''good'', Suc n))
      (\<lambda>d. if d = ''bad'' then Inl (Error ''corrupt'') else Inr (length d)) 0
     = (Inr 4, [''/v2/mod/eEAx'' \<mapsto> ''good''], 1)"
  using corrupted_cache_refetches [of "[''/v2/mod/eEAx'' \<mapsto> ''bad'']" "''/v2/mod/eEAx''" "''bad''"
      "\<lambda>d. d \<noteq> ''''" "\<lambda>d. if d = ''bad'' then Inl (Error ''corrupt'') else Inr (length d)"
      "Error ''corrupt''" "\<lambda>n :: nat. (Inr ''good'', Suc n)" 0 "''good''" 1]
  by simp

section \<open>Properties of dependency resolution\<close>

lemma packagesHash_empty: "packagesHash lc [] = ''''"
  by (simp add: packagesHash_def array_sort_def base64_def)

lemma readFile_absent: "\<not> exists fs p \<Longrightarrow> readFile fs p = ''''"
  by (simp add: exists_def readFile_def dict_has_def dict_get_def contentsOrEmpty_def)

text \<open>
  C10. On a file system with neither \<open><cwd>/package.json\<close> nor
  \<open>/~system/package-json-hash\<close>, and without dependencies in the options,
  \<open>resolveDependencies\<close> returns \<open>null\<close> and leaves the state of the module, hence
  the log of network requests, as it was: the fingerprint of the empty dependency map
  is the empty string, which is what \<open>readFile\<close> returns for the absent hash file.
\<close>

theorem fresh_fs_resolves_to_null:
  assumes dir: "installerCwd env fs options = Inr dir"
    and nopkg: "\<not> exists fs (join [dir, ''package.json''])"
    and nohash: "\<not> exists fs packageJsonHashPath"
    and noopt: "options_dependencies options = None"
  shows "resolveDependencies env fs options w
           = (Inr None, writeFile fs packageJsonHashPath '''', w)
       \<and> packagesHash (localeCompare env) (allDependencies None options) = ''''
       \<and> readFile fs packageJsonHashPath = ''''"
proof -
  have pj: "getPackageJson env fs options = Inr None"
    using dir nopkg by (simp add: getPackageJson_def readFile_absent)
  have deps: "allDependencies None options = []"
    using noopt by (simp add: allDependencies_def objectSpread_def orEmpty_def)
  have stored: "readFile fs packageJsonHashPath = ''''"
    using nohash by (rule readFile_absent)
  have "resolvePackages env (options_registryBaseUrl options) [] '''' w
      = (Inr \<lparr>packageJsonHash = '''', dependencies = None\<rparr>, w)"
    by (simp add: resolvePackages_def packagesHash_empty)
  then show ?thesis
    by (simp add: resolveDependencies_def pj deps stored packagesHash_empty)
qed

theorem fresh_fs_resolves_to_null_witness:
  "installerCwd offlineEnv (newFileSystemManager None)
       \<lparr>options_cwd = None, options_dependencies = None,
        options_registryBaseUrl = ''https://cdn.example''\<rparr> = Inr ''/app''
   \<and> \<not> exists (newFileSystemManager None) (join [''/app'', ''package.json''])
   \<and> \<not> exists (newFileSystemManager None) packageJsonHashPath
   \<and> resolveDependencies offlineEnv (newFileSystemManager None)
       \<lparr>options_cwd = None, options_dependencies = None,
        options_registryBaseUrl = ''https://cdn.example''\<rparr> emptyWorld
     = (Inr None,
        FileSystemManager
          [(''~system/package-json-hash'', \<lparr>contents = '''', isEntry = None, jsEntry = None\<rparr>)]
          ''/app'' None,
        emptyWorld)"
proof -
  let ?o = "\<lparr>options_cwd = None, options_dependencies = None,
        options_registryBaseUrl = ''https://cdn.example''\<rparr>"
  have h1: "installerCwd offlineEnv (newFileSystemManager None) ?o = Inr ''/app''"
    by (simp add: installerCwd_def newFileSystemManager_def cwd_def)
  have h2: "\<not> exists (newFileSystemManager None) (join [''/app'', ''package.json''])"
    by (simp add: exists_def newFileSystemManager_def dict_has_def)
  have h3: "\<not> exists (newFileSystemManager None) packageJsonHashPath"
    by (simp add: exists_def newFileSystemManager_def dict_has_def)
  have h4: "options_dependencies ?o = None" by simp
  have w: "writeFile (newFileSystemManager None) packageJsonHashPath ''''
      = FileSystemManager
          [(''~system/package-json-hash'', \<lparr>contents = '''', isEntry = None, jsEntry = None\<rparr>)]
          ''/app'' None"
    by (simp add: newFileSystemManager_def packageJsonHashPath_def absPath_def startsWith_def
          dict_set_def dict_has_def dict_get_def isArrayIndex_def isDigit_def spreadContents_def)
  from fresh_fs_resolves_to_null [OF h1 h2 h3 h4, of emptyWorld] h1 h2 h3 w
  show ?thesis by simp
qed

lemma collapseSlashes_last:
  "s \<noteq> [] \<Longrightarrow> collapseSlashes s \<noteq> [] \<and> last (collapseSlashes s) = last s"
  by (induction s rule: collapseSlashes.induct) auto

lemma join_package_json:
  "join [dir, ''package.json''] \<noteq> [] \<and> last (join [dir, ''package.json'']) = CHR ''n''"
proof (cases "dir = []")
  case True
  then show ?thesis
    by (simp add: join_def stripTrailingSlashes_def)
next
  case False
  then have "join [dir, ''package.json'']
      = collapseSlashes (stripTrailingSlashes dir @ ''/package.json'')"
    by (simp add: join_def stripSlashes_def stripTrailingSlashes_def)
  then show ?thesis
    using collapseSlashes_last [of "stripTrailingSlashes dir @ ''/package.json''"] by simp
qed

lemma absPath_hash: "absPath packageJsonHashPath = ''~system/package-json-hash''"
  by (simp add: packageJsonHashPath_def absPath_def startsWith_def)

lemma absPath_join_ne_hash:
  "absPath (join [dir, ''package.json'']) \<noteq> absPath packageJsonHashPath"
proof
  let ?j = "join [dir, ''package.json'']"
  assume eq: "absPath ?j = absPath packageJsonHashPath"
  then have ne: "absPath ?j \<noteq> []" and l: "last (absPath ?j) = CHR ''h''"
    by (simp_all add: absPath_hash)
  have "last (absPath ?j) = last ?j"
  proof (cases "startsWith ?j ''/''")
    case True
    with ne have "drop 1 ?j \<noteq> []" by (simp add: absPath_def)
    then have "1 < length ?j" by simp
    then have "last (drop 1 ?j) = last ?j" by (simp add: last_drop)
    with True show ?thesis by (simp add: absPath_def)
  next
    case False
    then show ?thesis by (simp add: absPath_def)
  qed
  with l join_package_json [of dir] show False by simp
qed

lemma readFile_writeFile_other:
  "absPath p \<noteq> absPath q \<Longrightarrow> readFile (writeFile fs q c) p = readFile fs p"
  by (simp add: readFile_def projectFiles_writeFile dict_get_dict_set)

lemma readFile_writeFile_same: "readFile (writeFile fs p c) p = c"
  by (simp add: readFile_def projectFiles_writeFile dict_get_dict_set contentsOrEmpty_eq
        spreadContents_def split: option.splits)

lemma cwd_writeFile: "cwd (writeFile fs p c) = cwd fs"
  by (cases fs) (simp add: cwd_def Let_def)

lemma getPackageJson_writeFile_hash:
  "getPackageJson env (writeFile fs packageJsonHashPath h) options
     = getPackageJson env fs options"
proof -
  have "installerCwd env (writeFile fs packageJsonHashPath h) options
      = installerCwd env fs options"
    by (simp add: installerCwd_def cwd_writeFile split: option.splits)
  then show ?thesis
    by (simp add: getPackageJson_def readFile_writeFile_other absPath_join_ne_hash
          split: sum.splits)
qed

lemma fetchWithRetry_requests:
  "fetchWithRetry n env input w = (r, w') \<Longrightarrow>
     localCache w' = localCache w
     \<and> (\<exists>k. 1 \<le> k \<and> k \<le> Suc n \<and> requests w' = requests w @ replicate k input)"
proof (induction n arbitrary: w)
  case 0
  then have "localCache w' = localCache w" "requests w' = requests w @ replicate 1 input"
    by auto
  then show ?case by (intro conjI exI [of _ 1]) simp_all
next
  case (Suc n)
  let ?w1 = "w\<lparr>requests := requests w @ [input]\<rparr>"
  show ?case
  proof (cases "fetch env (length (requests w)) input")
    case (Inr response)
    with Suc.prems have "localCache w' = localCache w"
      "requests w' = requests w @ replicate 1 input"
      by auto
    then show ?thesis by (intro conjI exI [of _ 1]) simp_all
  next
    case (Inl err)
    with Suc.prems have "fetchWithRetry n env input ?w1 = (r, w')" by simp
    from Suc.IH [OF this] obtain k where k: "1 \<le> k" "k \<le> Suc n"
      "requests w' = requests ?w1 @ replicate k input" and c: "localCache w' = localCache w"
      by auto
    from k(3) have "requests w' = requests w @ replicate (Suc k) input"
      by (simp add: replicate_app_Cons_same)
    with k(1,2) c show ?thesis
      by (intro conjI exI [of _ "Suc k"]) simp_all
  qed
qed

lemma world_same_cache: "w\<lparr>localCache := localCache w\<rparr> = w"
  by simp

lemma resolvePackages_Inr:
  assumes "resolvePackages env url pk stored w = (Inr res, w')"
  shows "(packagesHash (localeCompare env) pk = stored
            \<and> res = \<lparr>packageJsonHash = stored, dependencies = None\<rparr> \<and> w' = w)
       \<or> (packagesHash (localeCompare env) pk \<noteq> stored
            \<and> localCache w (''/v2/deps/'' @ packagesHash (localeCompare env) pk) = Some res
            \<and> w' = w)
       \<or> (packagesHash (localeCompare env) pk \<noteq> stored
            \<and> localCache w (''/v2/deps/'' @ packagesHash (localeCompare env) pk) = None
            \<and> packageJsonHash res = packagesHash (localeCompare env) pk
            \<and> localCache w' = (localCache w)(''/v2/deps/'' @ packagesHash (localeCompare env) pk \<mapsto> res)
            \<and> (\<exists>k. 1 \<le> k \<and> k \<le> 4 \<and> requests w' = requests w
                  @ replicate k (url @ ''/v2/deps/'' @ packagesHash (localeCompare env) pk)))"
proof -
  let ?H = "packagesHash (localeCompare env) pk"
  let ?rp = "''/v2/deps/'' @ ?H"
  show ?thesis
  proof (cases "?H = stored")
    case True
    with assms show ?thesis by (auto simp: resolvePackages_def)
  next
    case miss: False
    show ?thesis
    proof (cases "localCache w ?rp")
      case (Some c)
      with assms miss have "res = c" "w' = w"
        by (auto simp: resolvePackages_def withLocalCacheData_def Let_def)
      with miss Some show ?thesis by simp
    next
      case None
      obtain o1 w1 where fd: "fetchDependencies env url ?rp ?H w = (o1, w1)"
        by (cases "fetchDependencies env url ?rp ?H w")
      with assms miss None have o1: "o1 = Inr res" and w': "w' = w1\<lparr>localCache := (localCache w)(?rp \<mapsto> res)\<rparr>"
        by (auto simp: resolvePackages_def withLocalCacheData_def Let_def split: sum.splits)
      obtain o2 w2 where fr: "fetchWithRetry 3 env (url @ ?rp) w = (o2, w2)"
        by (cases "fetchWithRetry 3 env (url @ ?rp) w")
      from fd o1 fr have w1: "w1 = w2" and h: "packageJsonHash res = ?H"
        by (auto simp: fetchDependencies_def split: sum.splits)
      from fetchWithRetry_requests [OF fr] obtain k where
        "1 \<le> k" "k \<le> 4" "requests w2 = requests w @ replicate k (url @ ?rp)"
        by auto
      with w' w1 h miss None show ?thesis by auto
    qed
  qed
qed


lemma resolvePackages_match:
  "packagesHash (localeCompare env) pk = stored \<Longrightarrow>
   resolvePackages env url pk stored w
     = (Inr \<lparr>packageJsonHash = stored, dependencies = None\<rparr>, w)"
  by (simp add: resolvePackages_def)

lemma resolvePackages_again:
  assumes first: "resolvePackages env url pk stored w = (Inr res, w')"
  shows "\<exists>res2. resolvePackages env url pk (packageJsonHash res) w' = (Inr res2, w')
           \<and> (cacheConsistent (localCache w) \<longrightarrow> dependencies res2 = None)"
proof -
  let ?H = "packagesHash (localeCompare env) pk"
  let ?rp = "''/v2/deps/'' @ ?H"
  show ?thesis
  proof (cases "packageJsonHash res = ?H")
    case True
    then have "resolvePackages env url pk (packageJsonHash res) w'
        = (Inr \<lparr>packageJsonHash = packageJsonHash res, dependencies = None\<rparr>, w')"
      by (simp add: resolvePackages_match)
    then show ?thesis by simp
  next
    case False
    with resolvePackages_Inr [OF first]
    have hit: "localCache w ?rp = Some res" and same: "w' = w"
      by auto
    from hit False have "\<not> cacheConsistent (localCache w)"
      unfolding cacheConsistent_def by blast
    moreover from hit same False
    have "resolvePackages env url pk (packageJsonHash res) w' = (Inr res, w')"
      by (auto simp: resolvePackages_def withLocalCacheData_def Let_def)
    ultimately show ?thesis by simp
  qed
qed

text \<open>Every call of \<open>resolvePackages\<close> keeps the local cache keyed consistently.\<close>

lemma resolvePackages_keeps_cache_consistent:
  assumes inv: "cacheConsistent (localCache w)"
    and call: "resolvePackages env url pk stored w = (r, w')"
  shows "cacheConsistent (localCache w')"
proof -
  let ?H = "packagesHash (localeCompare env) pk"
  let ?rp = "''/v2/deps/'' @ ?H"
  show ?thesis
  proof (cases "?H = stored")
    case True
    with call inv show ?thesis by (simp add: resolvePackages_match)
  next
    case miss: False
    show ?thesis
    proof (cases "localCache w ?rp")
      case (Some c)
      with call miss have "w' = w"
        by (auto simp: resolvePackages_def withLocalCacheData_def Let_def)
      with inv show ?thesis by simp
    next
      case None
      obtain o1 w1 where fd: "fetchDependencies env url ?rp ?H w = (o1, w1)"
        by (cases "fetchDependencies env url ?rp ?H w")
      obtain o2 w2 where fr: "fetchWithRetry 3 env (url @ ?rp) w = (o2, w2)"
        by (cases "fetchWithRetry 3 env (url @ ?rp) w")
      from fetchWithRetry_requests [OF fr] have c2: "localCache w2 = localCache w" by simp
      show ?thesis
      proof (cases o1)
        case (Inl err)
        with call miss None fd have "localCache w' = localCache w"
          by (auto simp: resolvePackages_def withLocalCacheData_def Let_def)
        with inv show ?thesis by simp
      next
        case (Inr res)
        with fd fr have h: "packageJsonHash res = ?H"
          by (auto simp: fetchDependencies_def split: sum.splits)
        from call miss None fd Inr
        have "localCache w' = (localCache w)(?rp \<mapsto> res)"
          by (auto simp: resolvePackages_def withLocalCacheData_def Let_def)
        with inv h show ?thesis
          unfolding cacheConsistent_def by auto
      qed
    qed
  qed
qed

lemma fetchWithRetry_first_ok:
  "fetch env (length (requests w)) input = Inr response \<Longrightarrow>
   fetchWithRetry 3 env input w = (Inr response, w\<lparr>requests := requests w @ [input]\<rparr>)"
  by (simp add: numeral_3_eq_3)

text \<open>
  C2 (as amended). When the fingerprint stored at \<open>/~system/package-json-hash\<close> equals
  the fingerprint of the merged dependency map, \<open>resolveDependencies\<close> returns \<open>null\<close>
  and issues no network request. Consequently, once a first call has returned, a second
  call on the resulting file system with the same options leaves the state of the module
  as it is (no network request) and, the local cache being keyed by the fingerprints of
  its entries, returns \<open>null\<close>. The first call issues at most four requests (one and
  three retries); it issues exactly one when it misses both the stored fingerprint and
  the local cache and its first request succeeds.
\<close>

theorem resolveDependencies_memoised:
  "(getPackageJson env fs options = Inr pj
      \<and> readFile fs packageJsonHashPath
          = packagesHash (localeCompare env) (allDependencies pj options)
     \<longrightarrow> resolveDependencies env fs options w
          = (Inr None,
             writeFile fs packageJsonHashPath
               (packagesHash (localeCompare env) (allDependencies pj options)),
             w))
   \<and> (resolveDependencies env fs options w = (Inr r, fs', w')
     \<longrightarrow> snd (snd (resolveDependencies env fs' options w')) = w'
       \<and> (cacheConsistent (localCache w)
            \<longrightarrow> fst (resolveDependencies env fs' options w') = Inr None)
       \<and> (\<exists>k url. k \<le> 4 \<and> requests w' = requests w @ replicate k url)
       \<and> (getPackageJson env fs options = Inr pj
            \<and> readFile fs packageJsonHashPath
                \<noteq> packagesHash (localeCompare env) (allDependencies pj options)
            \<and> localCache w (''/v2/deps/''
                  @ packagesHash (localeCompare env) (allDependencies pj options)) = None
            \<and> fetch env (length (requests w))
                  (options_registryBaseUrl options @ ''/v2/deps/''
                    @ packagesHash (localeCompare env) (allDependencies pj options))
                = Inr response
          \<longrightarrow> requests w' = requests w
                @ [options_registryBaseUrl options @ ''/v2/deps/''
                    @ packagesHash (localeCompare env) (allDependencies pj options)]))"
  (is "?match \<and> (?first \<longrightarrow> ?second)")
proof (rule conjI)
  show ?match
    by (simp add: resolveDependencies_def resolvePackages_match)
next
  show "?first \<longrightarrow> ?second"
  proof (rule impI)
    assume first: ?first
    then obtain pj0 where pj0: "getPackageJson env fs options = Inr pj0"
      by (auto simp: resolveDependencies_def split: sum.splits)
    let ?pk = "allDependencies pj0 options"
    let ?url = "options_registryBaseUrl options"
    from first pj0 obtain res where
      rp: "resolvePackages env ?url ?pk (readFile fs packageJsonHashPath) w = (Inr res, w')"
      and r: "r = dependencies res"
      and fs': "fs' = writeFile fs packageJsonHashPath (packageJsonHash res)"
      by (auto simp: resolveDependencies_def split: sum.splits prod.splits)
    have pj': "getPackageJson env fs' options = Inr pj0"
      by (simp add: fs' getPackageJson_writeFile_hash pj0)
    have stored': "readFile fs' packageJsonHashPath = packageJsonHash res"
      by (simp add: fs' readFile_writeFile_same)
    from resolvePackages_again [OF rp] obtain res2 where
      again: "resolvePackages env ?url ?pk (packageJsonHash res) w' = (Inr res2, w')"
      and null: "cacheConsistent (localCache w) \<longrightarrow> dependencies res2 = None"
      by blast
    have second: "resolveDependencies env fs' options w'
        = (Inr (dependencies res2), writeFile fs' packageJsonHashPath (packageJsonHash res2), w')"
      by (simp add: resolveDependencies_def pj' stored' again)
    have c1: "snd (snd (resolveDependencies env fs' options w')) = w'"
      by (simp add: second)
    have c2: "cacheConsistent (localCache w)
        \<longrightarrow> fst (resolveDependencies env fs' options w') = Inr None"
      using null by (simp add: second)
    have c3: "\<exists>k url. k \<le> 4 \<and> requests w' = requests w @ replicate k url"
    proof -
      from resolvePackages_Inr [OF rp]
      have "w' = w \<or> (\<exists>k u. 1 \<le> k \<and> k \<le> 4 \<and> requests w' = requests w @ replicate k u)"
        by blast
      then show ?thesis
      proof
        assume "w' = w"
        then have "0 \<le> (4::nat) \<and> requests w' = requests w @ replicate 0 ''''" by simp
        then show ?thesis by blast
      next
        assume "\<exists>k u. 1 \<le> k \<and> k \<le> 4 \<and> requests w' = requests w @ replicate k u"
        then show ?thesis by blast
      qed
    qed
    have c4: "getPackageJson env fs options = Inr pj
          \<and> readFile fs packageJsonHashPath
              \<noteq> packagesHash (localeCompare env) (allDependencies pj options)
          \<and> localCache w (''/v2/deps/''
                @ packagesHash (localeCompare env) (allDependencies pj options)) = None
          \<and> fetch env (length (requests w))
                (options_registryBaseUrl options @ ''/v2/deps/''
                  @ packagesHash (localeCompare env) (allDependencies pj options))
              = Inr response
        \<longrightarrow> requests w' = requests w
              @ [options_registryBaseUrl options @ ''/v2/deps/''
                  @ packagesHash (localeCompare env) (allDependencies pj options)]"
    proof (rule impI)
      assume miss: "getPackageJson env fs options = Inr pj
          \<and> readFile fs packageJsonHashPath
              \<noteq> packagesHash (localeCompare env) (allDependencies pj options)
          \<and> localCache w (''/v2/deps/''
                @ packagesHash (localeCompare env) (allDependencies pj options)) = None
          \<and> fetch env (length (requests w))
                (options_registryBaseUrl options @ ''/v2/deps/''
                  @ packagesHash (localeCompare env) (allDependencies pj options))
              = Inr response"
      with pj0 have pj: "pj0 = pj" by simp
      let ?H = "packagesHash (localeCompare env) (allDependencies pj options)"
      from miss have ok: "fetchWithRetry 3 env (?url @ ''/v2/deps/'' @ ?H) w
          = (Inr response, w\<lparr>requests := requests w @ [?url @ ''/v2/deps/'' @ ?H]\<rparr>)"
        by (simp add: fetchWithRetry_first_ok)
      from rp miss pj ok show "requests w' = requests w @ [?url @ ''/v2/deps/'' @ ?H]"
        by (auto simp: resolvePackages_def withLocalCacheData_def fetchDependencies_def Let_def
              split: sum.splits)
    qed
    show ?second
      by (rule conjI [OF c1 conjI [OF c2 conjI [OF c3 c4]]])
  qed
qed

lemma fsH: "writeFile (newFileSystemManager None) packageJsonHashPath ''eEAx''
    = FileSystemManager
        [(''~system/package-json-hash'', \<lparr>contents = ''eEAx'', isEntry = None, jsEntry = None\<rparr>)]
        ''/app'' None"
  by (simp add: newFileSystemManager_def packageJsonHashPath_def absPath_def startsWith_def
        dict_set_def dict_has_def dict_get_def isArrayIndex_def isDigit_def spreadContents_def)

lemma join_app: "join [''/app'', ''package.json''] = ''/app/package.json''"
  by (simp add: join_def stripTrailingSlashes_def stripSlashes_def)

lemma hash_x1: "packagesHash rootCollation [(''x'', ''1'')] = ''eEAx''"
  by (simp add: packagesHash_def array_sort_def base64_def b64_def b64chars_def)

lemma deps_sample: "allDependencies None sampleOptions = [(''x'', ''1'')]"
  by (simp add: allDependencies_def sampleOptions_def objectSpread_def orEmpty_def
        dict_set_def dict_has_def isArrayIndex_def isDigit_def)

lemma cwd_sample: "installerCwd cdnEnv (FileSystemManager pf ''/app'' r) sampleOptions = Inr ''/app''"
  by (simp add: installerCwd_def sampleOptions_def cwd_def)

lemma pj_sample_H: "getPackageJson cdnEnv (FileSystemManager
        [(''~system/package-json-hash'', \<lparr>contents = ''eEAx'', isEntry = None, jsEntry = None\<rparr>)]
        ''/app'' None) sampleOptions = Inr None"
  by (simp add: getPackageJson_def cwd_sample join_app readFile_def absPath_def startsWith_def
        dict_get_def contentsOrEmpty_def)


lemma lc_cdn: "localeCompare cdnEnv = rootCollation"
  by (simp add: cdnEnv_def)

text \<open>
  C2 as stated fails where the stored fingerprint already matches: with the dependency
  \<open>x@1\<close> in the options and \<open>base64("x@1")\<close> stored, the call returns \<open>null\<close> and
  gives back the same file system and the same state, so this call and the next one
  issue no network request at all, not exactly one.
\<close>

theorem resolveDependencies_counterexample:
  "resolveDependencies cdnEnv
       (writeFile (newFileSystemManager None) packageJsonHashPath ''eEAx'')
       sampleOptions emptyWorld
     = (Inr None, writeFile (newFileSystemManager None) packageJsonHashPath ''eEAx'',
        emptyWorld)
   \<and> requests emptyWorld = []"
proof -
  let ?fs = "FileSystemManager
        [(''~system/package-json-hash'', \<lparr>contents = ''eEAx'', isEntry = None, jsEntry = None\<rparr>)]
        ''/app'' None"
  have stored: "readFile ?fs packageJsonHashPath = ''eEAx''"
    by (simp add: readFile_def packageJsonHashPath_def absPath_def startsWith_def dict_get_def
          contentsOrEmpty_def)
  have again: "writeFile ?fs packageJsonHashPath ''eEAx'' = ?fs"
    by (simp add: packageJsonHashPath_def absPath_def startsWith_def dict_set_def dict_has_def
          dict_get_def spreadContents_def)
  have "resolvePackages cdnEnv (options_registryBaseUrl sampleOptions) [(''x'', ''1'')] ''eEAx''
      emptyWorld = (Inr \<lparr>packageJsonHash = ''eEAx'', dependencies = None\<rparr>, emptyWorld)"
    by (rule resolvePackages_match) (simp add: lc_cdn hash_x1)
  then have "resolveDependencies cdnEnv ?fs sampleOptions emptyWorld = (Inr None, ?fs, emptyWorld)"
    using sampleOptions_def
    by (simp add: resolveDependencies_def pj_sample_H deps_sample stored again
          del: writeFile.simps)
  then show ?thesis
    by (simp add: fsH emptyWorld_def del: writeFile.simps)
qed

lemma stripMajor_x: "stripMajor ''x@1'' = ''x''"
  by (simp add: stripMajor_def)

lemma fetchDeps_sample:
  "fetchDependencies cdnEnv ''https://cdn.example'' ''/v2/deps/eEAx'' ''eEAx'' emptyWorld
     = (Inr \<lparr>packageJsonHash = ''eEAx'', dependencies = Some [(''x'', ''1.2.3'')]\<rparr>,
        \<lparr>localCache = Map.empty, requests = [''https://cdn.example/v2/deps/eEAx'']\<rparr>)"
proof -
  have f: "fetch cdnEnv (length (requests emptyWorld)) (''https://cdn.example'' @ ''/v2/deps/eEAx'')
      = Inr ''response''"
    by (simp add: cdnEnv_def)
  have d: "notepack_decode cdnEnv ''response'' = Inr [(''x@1'', ''1.2.3'')]"
    by (simp add: cdnEnv_def)
  have e: "fromEntries [(''x'', ''1.2.3'')] = [(''x'', ''1.2.3'')]"
    by (simp add: fromEntries_def objectSpread_def dict_set_def dict_has_def isArrayIndex_def
          isDigit_def)
  show ?thesis
    unfolding fetchDependencies_def fetchWithRetry_first_ok [OF f]
    by (simp add: d stripMajor_x e emptyWorld_def)
qed

lemma resolvePackages_sample:
  "resolvePackages cdnEnv ''https://cdn.example'' [(''x'', ''1'')] '''' emptyWorld
     = (Inr \<lparr>packageJsonHash = ''eEAx'', dependencies = Some [(''x'', ''1.2.3'')]\<rparr>,
        \<lparr>localCache = [''/v2/deps/eEAx'' \<mapsto>
            \<lparr>packageJsonHash = ''eEAx'', dependencies = Some [(''x'', ''1.2.3'')]\<rparr>],
         requests = [''https://cdn.example/v2/deps/eEAx'']\<rparr>)"
proof -
  have c: "localCache emptyWorld ''/v2/deps/eEAx'' = None"
    by (simp add: emptyWorld_def)
  have fd: "fetchDependencies cdnEnv ''https://cdn.example'' (''/v2/deps/'' @ ''eEAx'') ''eEAx''
      emptyWorld
     = (Inr \<lparr>packageJsonHash = ''eEAx'', dependencies = Some [(''x'', ''1.2.3'')]\<rparr>,
        \<lparr>localCache = Map.empty, requests = [''https://cdn.example/v2/deps/eEAx'']\<rparr>)"
    using fetchDeps_sample by simp
  have m: "localCache emptyWorld = Map.empty" by (simp add: emptyWorld_def)
  show ?thesis
    unfolding resolvePackages_def lc_cdn hash_x1 Let_def withLocalCacheData_def
    by (simp only: c fd m) simp
qed

theorem resolveDependencies_memoised_witness:
  "resolveDependencies cdnEnv (newFileSystemManager None) sampleOptions emptyWorld
     = (Inr (Some [(''x'', ''1.2.3'')]),
        writeFile (newFileSystemManager None) packageJsonHashPath ''eEAx'',
        \<lparr>localCache = [''/v2/deps/eEAx'' \<mapsto>
            \<lparr>packageJsonHash = ''eEAx'', dependencies = Some [(''x'', ''1.2.3'')]\<rparr>],
         requests = [''https://cdn.example/v2/deps/eEAx'']\<rparr>)
   \<and> cacheConsistent (localCache emptyWorld)
   \<and> fst (resolveDependencies cdnEnv
        (writeFile (newFileSystemManager None) packageJsonHashPath ''eEAx'') sampleOptions
        \<lparr>localCache = [''/v2/deps/eEAx'' \<mapsto>
            \<lparr>packageJsonHash = ''eEAx'', dependencies = Some [(''x'', ''1.2.3'')]\<rparr>],
         requests = [''https://cdn.example/v2/deps/eEAx'']\<rparr>) = Inr None
   \<and> requests (snd (snd (resolveDependencies cdnEnv
        (writeFile (newFileSystemManager None) packageJsonHashPath ''eEAx'') sampleOptions
        \<lparr>localCache = [''/v2/deps/eEAx'' \<mapsto>
            \<lparr>packageJsonHash = ''eEAx'', dependencies = Some [(''x'', ''1.2.3'')]\<rparr>],
         requests = [''https://cdn.example/v2/deps/eEAx'']\<rparr>)))
       = [''https://cdn.example/v2/deps/eEAx'']"
proof -
  let ?fs0 = "newFileSystemManager None"
  let ?fs1 = "writeFile (newFileSystemManager None) packageJsonHashPath ''eEAx''"
  let ?w1 = "\<lparr>localCache = [''/v2/deps/eEAx'' \<mapsto>
            \<lparr>packageJsonHash = ''eEAx'', dependencies = Some [(''x'', ''1.2.3'')]\<rparr>],
         requests = [''https://cdn.example/v2/deps/eEAx'']\<rparr>"
  have pj: "getPackageJson cdnEnv ?fs0 sampleOptions = Inr None"
    by (simp add: newFileSystemManager_def getPackageJson_def cwd_sample join_app readFile_def
          dict_get_def contentsOrEmpty_def)
  have stored: "readFile ?fs0 packageJsonHashPath = ''''"
    by (simp add: newFileSystemManager_def readFile_def dict_get_def contentsOrEmpty_def)
  have url: "options_registryBaseUrl sampleOptions = ''https://cdn.example''"
    by (simp add: sampleOptions_def)
  have first: "resolveDependencies cdnEnv ?fs0 sampleOptions emptyWorld
      = (Inr (Some [(''x'', ''1.2.3'')]), ?fs1, ?w1)"
    by (simp add: resolveDependencies_def pj stored deps_sample url resolvePackages_sample
          del: writeFile.simps)
  have inv: "cacheConsistent (localCache emptyWorld)"
    by (simp add: cacheConsistent_def emptyWorld_def)
  from resolveDependencies_memoised [of cdnEnv ?fs0 sampleOptions
      undefined emptyWorld "Some [(''x'', ''1.2.3'')]" ?fs1 ?w1 undefined] first inv
  have "snd (snd (resolveDependencies cdnEnv ?fs1 sampleOptions ?w1)) = ?w1"
    and "fst (resolveDependencies cdnEnv ?fs1 sampleOptions ?w1) = Inr None"
    by blast+
  with first inv show ?thesis by (simp del: writeFile.simps)
qed

section \<open>Properties of the in-worker handler\<close>

text \<open>
  C3 (as amended). Whenever the formatting of the errors and of the warnings is
  fulfilled, \<open>respondWithError\<close> responds with status \<open>resolve\<close> and a payload whose
  \<open>stderr_\<close> is the merge of the formatted errors and warnings into an empty stderr and
  whose \<open>stdout\<close> is \<open>JSON.stringify({errors, warnings})\<close>; \<open>errors\<close> is
  \<open>[{text: String(err)}]\<close> when the rejection has neither array, and the array of the
  rejection otherwise. Whatever happens, no response has another status than
  \<open>resolve\<close>; and with the built-in formatter (an engine without \<open>formatMessages\<close>)
  there always is a response.
\<close>

theorem engine_rejection_is_resolved:
  "(formatIfAny api (errorsOf err) ''error'' color = Inr fmterrors
      \<and> formatIfAny api (rej_warnings err) ''warning'' color = Inr fmtwarnings
     \<longrightarrow> respondWithError JSON_stringify api color err
         = Some (Resolve,
                 \<lparr>stderr_ = mergeStderrStreams (fmterrors @ fmtwarnings) '''',
                  stdout = JSON_stringify
                    \<lparr>diag_errors = errorsOf err, diag_warnings = rej_warnings err\<rparr>\<rparr>))
   \<and> (rej_errors err = None \<and> rej_warnings err = None
     \<longrightarrow> errorsOf err
         = Some [\<lparr>msg_text = rej_string err, msg_location = None, msg_notes = None\<rparr>])
   \<and> (rej_errors err \<noteq> None \<or> rej_warnings err \<noteq> None
     \<longrightarrow> errorsOf err = rej_errors err)
   \<and> (\<forall>status payload.
         respondWithError JSON_stringify api color err = Some (status, payload)
         \<longrightarrow> status = Resolve)
   \<and> (api_formatMessages api = None
     \<longrightarrow> (\<exists>payload. respondWithError JSON_stringify api color err = Some (Resolve, payload)))"
proof (intro conjI)
  show "formatIfAny api (errorsOf err) ''error'' color = Inr fmterrors
      \<and> formatIfAny api (rej_warnings err) ''warning'' color = Inr fmtwarnings
     \<longrightarrow> respondWithError JSON_stringify api color err
         = Some (Resolve,
                 \<lparr>stderr_ = mergeStderrStreams (fmterrors @ fmtwarnings) '''',
                  stdout = JSON_stringify
                    \<lparr>diag_errors = errorsOf err, diag_warnings = rej_warnings err\<rparr>\<rparr>)"
    by (simp add: respondWithError_def Let_def)
next
  show "rej_errors err = None \<and> rej_warnings err = None
     \<longrightarrow> errorsOf err
         = Some [\<lparr>msg_text = rej_string err, msg_location = None, msg_notes = None\<rparr>]"
    by (simp add: errorsOf_def)
next
  show "rej_errors err \<noteq> None \<or> rej_warnings err \<noteq> None
     \<longrightarrow> errorsOf err = rej_errors err"
    by (auto simp: errorsOf_def)
next
  show "\<forall>status payload.
         respondWithError JSON_stringify api color err = Some (status, payload)
         \<longrightarrow> status = Resolve"
    by (auto simp: respondWithError_def Let_def split: sum.splits)
next
  show "api_formatMessages api = None
     \<longrightarrow> (\<exists>payload. respondWithError JSON_stringify api color err = Some (Resolve, payload))"
  proof
    assume fallback: "api_formatMessages api = None"
    then have "\<exists>out. formatIfAny api ms kind color = Inr out" for ms kind
      by (cases ms) (simp_all add: formatIfAny_def formatMessages_def)
    then obtain fe fw where
      "formatIfAny api (errorsOf err) ''error'' color = Inr fe"
      "formatIfAny api (rej_warnings err) ''warning'' color = Inr fw"
      by blast
    then show "\<exists>payload. respondWithError JSON_stringify api color err = Some (Resolve, payload)"
      by (simp add: respondWithError_def Let_def)
  qed
qed

text \<open>
  C3 as stated fails when the engine's \<open>formatMessages\<close> is rejected, as it is once the
  service has stopped: \<open>Promise.all\<close> is rejected, its \<open>then\<close> never runs, and no
  response at all is posted for the request.
\<close>

theorem engine_rejection_counterexample:
  "respondWithError sampleStringify stoppedApi True
     \<lparr>rej_string = ''Error: The service was stopped'', rej_errors = None, rej_warnings = None\<rparr>
   = None"
  by (simp add: respondWithError_def errorsOf_def formatIfAny_def formatMessages_def
        stoppedApi_def)

lemma stripAnsi_sample:
  "stripAnsi (ESC @ ''[1m > '' @ ESC @ ''[31merror:'' @ ESC @ ''[1m boom'' @ ESC @ ''[0m''
      @ [CHR 0x0A, CHR 0x0A]) = '' > error: boom'' @ [CHR 0x0A, CHR 0x0A]"
  by (simp add: ESC_def startsWith_def)

theorem engine_rejection_is_resolved_witness:
  "formatIfAny \<lparr>api_formatMessages = None\<rparr>
       (errorsOf \<lparr>rej_string = ''boom'', rej_errors = None, rej_warnings = None\<rparr>)
       ''error'' True
     = Inr [ESC @ ''[1m > '' @ ESC @ ''[31merror:'' @ ESC @ ''[1m boom'' @ ESC @ ''[0m''
              @ [CHR 0x0A, CHR 0x0A]]
   \<and> formatIfAny \<lparr>api_formatMessages = None\<rparr>
       (rej_warnings \<lparr>rej_string = ''boom'', rej_errors = None, rej_warnings = None\<rparr>)
       ''warning'' True
     = Inr []
   \<and> respondWithError sampleStringify \<lparr>api_formatMessages = None\<rparr> True
       \<lparr>rej_string = ''boom'', rej_errors = None, rej_warnings = None\<rparr>
     = Some (Resolve,
         \<lparr>stderr_ = ESC @ ''[1m > '' @ ESC @ ''[31merror:'' @ ESC @ ''[1m boom'' @ ESC
              @ ''[0m'' @ [CHR 0x0A, CHR 0x0A],
          stdout = ''{errors:[{text:boom}]}''\<rparr>)"
proof -
  let ?api = "\<lparr>api_formatMessages = None\<rparr>"
  let ?err = "\<lparr>rej_string = ''boom'', rej_errors = None, rej_warnings = None\<rparr>"
  let ?f = "ESC @ ''[1m > '' @ ESC @ ''[31merror:'' @ ESC @ ''[1m boom'' @ ESC @ ''[0m''
              @ [CHR 0x0A, CHR 0x0A]"
  have e: "formatIfAny ?api (errorsOf ?err) ''error'' True = Inr [?f]"
    by (simp add: formatIfAny_def errorsOf_def formatMessages_def format_def)
  have w: "formatIfAny ?api (rej_warnings ?err) ''warning'' True = Inr []"
    by (simp add: formatIfAny_def)
  have m: "mergeStderrStreams ([?f] @ []) '''' = ?f"
  proof -
    define f where "f = ?f"
    have ne: "f \<noteq> []" by (simp add: f_def ESC_def)
    have plain: "stripAnsi f = '' > error: boom'' @ [CHR 0x0A, CHR 0x0A]"
      unfolding f_def by (rule stripAnsi_sample)
    have "mergeStderrStreams [f] '''' = f"
      using ne by (simp add: mergeStderrStreams_def str_includes_def plain)
    then show ?thesis by (simp add: f_def)
  qed
  have s: "sampleStringify \<lparr>diag_errors = errorsOf ?err, diag_warnings = rej_warnings ?err\<rparr>
      = ''{errors:[{text:boom}]}''"
    by (simp add: sampleStringify_def errorsOf_def)
  from engine_rejection_is_resolved [of ?api ?err True "[?f]" "[]" sampleStringify] e w
  have "respondWithError sampleStringify ?api True ?err
     = Some (Resolve,
         \<lparr>stderr_ = mergeStderrStreams ([?f] @ []) '''',
          stdout = sampleStringify
            \<lparr>diag_errors = errorsOf ?err, diag_warnings = rej_warnings ?err\<rparr>\<rparr>)"
    by blast
  with e w m s show ?thesis by (simp only: simp_thms)
qed

section \<open>Properties of the waiting table\<close>

lemma set_insertIndex: "set (insertIndex k v d) = insert (k, v) (set d)"
  by (induction d) (auto split: if_splits)

lemma set_dict_set: "set (dict_set k v d) = insert (k, v) {x \<in> set d. fst x \<noteq> k}"
proof (cases "map_of d k = None")
  case True
  then have "\<forall>x\<in>set d. fst x \<noteq> k"
    by (metis map_of_eq_None_iff image_eqI)
  with True show ?thesis
    by (auto simp: dict_set_def dict_has_def set_insertIndex)
next
  case False
  then obtain v' where "(k, v') \<in> set d"
    by (auto dest: map_of_SomeD)
  with False show ?thesis
    by (force simp: dict_set_def dict_has_def split: if_splits)
qed

lemma set_dict_delete: "set (dict_delete k d) = {x \<in> set d. fst x \<noteq> k}"
  by (auto simp: dict_delete_def)

lemma dict_get_in_set: "dict_get d k = Some v \<Longrightarrow> (k, v) \<in> set d"
  by (simp add: dict_get_def map_of_SomeD)

lemma settlePromise_length: "length (settlePromise p v ps) = length ps"
  by (simp add: settlePromise_def)

lemma settlePromise_nth:
  "q < length ps \<Longrightarrow>
   settlePromise p v ps ! q = (if q = p \<and> ps ! p = Pending then v else ps ! q)"
  by (auto simp: settlePromise_def)


lemma inv_sendIPC:
  assumes inv: "poolInv s" and sent: "sendIPC s id' progress = Inr (p, s')"
  shows "poolInv s'"
proof -
  let ?new = "\<lparr>entry_promise = length (promises s), entry_worker = last (availableWorkers s),
      entry_progress = progress\<rparr>"
  from sent have ps: "promises s' = promises s @ [Pending]"
    and wp: "waitingPromise s' = dict_set id' ?new (waitingPromise s)"
    by (auto simp: sendIPC_def Let_def split: if_splits)
  have old: "entry_promise (snd x) < length (promises s)
      \<and> promises s ! entry_promise (snd x) = Pending"
    if "x \<in> set (waitingPromise s)" for x
    using inv that unfolding poolInv_def by blast
  have entries: "set (waitingPromise s') \<subseteq> insert (id', ?new) (set (waitingPromise s))"
    by (auto simp: wp set_dict_set)
  have pending: "\<forall>x\<in>set (waitingPromise s').
      entry_promise (snd x) < length (promises s')
      \<and> promises s' ! entry_promise (snd x) = Pending"
  proof
    fix x assume "x \<in> set (waitingPromise s')"
    with entries have "x = (id', ?new) \<or> x \<in> set (waitingPromise s)" by blast
    then show "entry_promise (snd x) < length (promises s')
        \<and> promises s' ! entry_promise (snd x) = Pending"
    proof
      assume "x = (id', ?new)"
      then show ?thesis by (simp add: ps)
    next
      assume "x \<in> set (waitingPromise s)"
      from old [OF this] show ?thesis by (simp add: ps nth_append)
    qed
  qed
  have "inj_on (\<lambda>x. entry_promise (snd x)) (insert (id', ?new) (set (waitingPromise s)))"
  proof -
    have "inj_on (\<lambda>x. entry_promise (snd x)) (set (waitingPromise s))"
      using inv unfolding poolInv_def by blast
    moreover have "entry_promise (snd (id', ?new))
        \<notin> (\<lambda>x. entry_promise (snd x)) ` (set (waitingPromise s) - {(id', ?new)})"
      using old by fastforce
    ultimately show ?thesis by (simp add: inj_on_insert)
  qed
  then have "inj_on (\<lambda>x. entry_promise (snd x)) (set (waitingPromise s'))"
    using entries by (rule inj_on_subset)
  with pending show ?thesis unfolding poolInv_def by blast
qed

lemma inv_settle_delete:
  assumes inv: "poolInv s" and e: "(id', e) \<in> set (waitingPromise s)"
  shows "poolInv (s\<lparr>availableWorkers := ws,
      promises := settlePromise (entry_promise e) v (promises s),
      waitingPromise := dict_delete id' (waitingPromise s)\<rparr>)"
    (is "poolInv ?s'")
proof -
  have sub: "set (waitingPromise ?s') \<subseteq> set (waitingPromise s)"
    by (auto simp: set_dict_delete)
  have inj: "inj_on (\<lambda>x. entry_promise (snd x)) (set (waitingPromise s))"
    using inv unfolding poolInv_def by blast
  have "\<forall>x\<in>set (waitingPromise ?s').
      entry_promise (snd x) < length (promises ?s')
      \<and> promises ?s' ! entry_promise (snd x) = Pending"
  proof
    fix x assume x: "x \<in> set (waitingPromise ?s')"
    then have xs: "x \<in> set (waitingPromise s)" and "fst x \<noteq> id'"
      by (auto simp: set_dict_delete)
    then have "x \<noteq> (id', e)" by auto
    with inj_onD [OF inj, of x "(id', e)"] xs e
    have ne: "entry_promise (snd x) \<noteq> entry_promise e"
      by auto
    from inv xs have "entry_promise (snd x) < length (promises s)"
      "promises s ! entry_promise (snd x) = Pending"
      unfolding poolInv_def by blast+
    with ne show "entry_promise (snd x) < length (promises ?s')
        \<and> promises ?s' ! entry_promise (snd x) = Pending"
      by (simp add: settlePromise_length settlePromise_nth)
  qed
  moreover have "inj_on (\<lambda>x. entry_promise (snd x)) (set (waitingPromise ?s'))"
    using inj sub by (rule inj_on_subset)
  ultimately show ?thesis unfolding poolInv_def by blast
qed

lemma inv_onmessage:
  assumes inv: "poolInv s"
  shows "poolInv (onmessage s m)"
proof (cases m)
  case Malformed
  with inv show ?thesis by (simp add: onmessage_def)
next
  case (Response id' status data)
  show ?thesis
  proof (cases "dict_get (waitingPromise s) id'")
    case None
    with inv Response show ?thesis by (simp add: onmessage_def)
  next
    case (Some e)
    then have e: "(id', e) \<in> set (waitingPromise s)" by (rule dict_get_in_set)
    show ?thesis
    proof (cases status)
      case Resolve
      with Response Some inv_settle_delete [OF inv e] show ?thesis
        by (simp add: onmessage_def entryResolve_def)
    next
      case Reject
      with Response Some inv_settle_delete [OF inv e] show ?thesis
        by (simp add: onmessage_def entryReject_def)
    next
      case Progress
      with Response Some inv show ?thesis
        by (simp add: onmessage_def entryProgress_def poolInv_def)
    qed
  qed
qed

lemma abortEntry_table:
  "waitingPromise (abortEntry x s) = dict_delete (fst x) (waitingPromise s)"
  by (cases x) (simp add: abortEntry_def entryReject_def)

lemma abortEntry_promises:
  "promises (abortEntry x s)
     = settlePromise (entry_promise (snd x)) (Rejected reloadReason) (promises s)"
  by (cases x) (simp add: abortEntry_def entryReject_def)

lemma fold_abort_table:
  "waitingPromise (fold abortEntry es s)
     = filter (\<lambda>x. fst x \<notin> fst ` set es) (waitingPromise s)"
proof (induction es arbitrary: s)
  case Nil
  show ?case by simp
next
  case (Cons e es)
  have "filter (\<lambda>x. fst x \<notin> fst ` set es) (dict_delete (fst e) (waitingPromise s))
      = filter (\<lambda>x. fst x \<notin> fst ` set (e # es)) (waitingPromise s)"
    by (auto simp: dict_delete_def case_prod_unfold intro!: filter_cong)
  with Cons.IH [of "abortEntry e s"] show ?case
    by (simp add: abortEntry_table)
qed

lemma abortPending_table: "waitingPromise (abortPending s) = []"
  by (simp add: abortPending_def fold_abort_table filter_empty_conv)

lemma fold_abort_promises:
  "length (promises (fold abortEntry es s)) = length (promises s)
   \<and> (\<forall>p<length (promises s).
        promises (fold abortEntry es s) ! p
          = (if p \<in> (\<lambda>x. entry_promise (snd x)) ` set es \<and> promises s ! p = Pending
             then Rejected reloadReason else promises s ! p))"
proof (induction es arbitrary: s)
  case Nil
  show ?case by simp
next
  case (Cons e es)
  let ?s1 = "abortEntry e s"
  have len: "length (promises ?s1) = length (promises s)"
    by (simp add: abortEntry_promises settlePromise_length)
  have one: "promises ?s1 ! p
      = (if p = entry_promise (snd e) \<and> promises s ! p = Pending
         then Rejected reloadReason else promises s ! p)"
    if "p < length (promises s)" for p
    using that by (auto simp: abortEntry_promises settlePromise_nth)
  from Cons.IH [of ?s1] len
  have rest: "length (promises (fold abortEntry es ?s1)) = length (promises s)"
    and nth: "\<And>p. p < length (promises s) \<Longrightarrow>
        promises (fold abortEntry es ?s1) ! p
          = (if p \<in> (\<lambda>x. entry_promise (snd x)) ` set es \<and> promises ?s1 ! p = Pending
             then Rejected reloadReason else promises ?s1 ! p)"
    by simp_all
  show ?case
  proof (intro conjI allI impI)
    show "length (promises (fold abortEntry (e # es) s)) = length (promises s)"
      using rest by simp
  next
    fix p assume p: "p < length (promises s)"
    show "promises (fold abortEntry (e # es) s) ! p
        = (if p \<in> (\<lambda>x. entry_promise (snd x)) ` set (e # es) \<and> promises s ! p = Pending
           then Rejected reloadReason else promises s ! p)"
      using nth [OF p] one [OF p] by auto
  qed
qed

lemma inv_reachable: "reachable s \<Longrightarrow> poolInv s"
proof (induction rule: reachable.induct)
  case initial
  show ?case by (simp add: poolInv_def initialPool_def)
next
  case (next_step s s')
  from next_step.hyps(2) next_step.IH show ?case
  proof (cases rule: step.cases)
    case (submit id' progress p)
    with next_step.IH show ?thesis by (auto intro: inv_sendIPC)
  next
    case (message m)
    with next_step.IH show ?thesis by (simp add: inv_onmessage)
  next
    case abort
    then show ?thesis by (simp add: poolInv_def abortPending_table)
  next
    case (install workers)
    with next_step.IH show ?thesis by (simp add: poolInv_def installWorkers_def)
  qed
qed


lemma keepsSettled_refl: "keepsSettled s s"
  by (simp add: keepsSettled_def)

lemma keepsSettled_trans: "keepsSettled a b \<Longrightarrow> keepsSettled b c \<Longrightarrow> keepsSettled a c"
  unfolding keepsSettled_def by (metis le_trans less_le_trans)

lemma keepsSettled_settle:
  "promises s' = settlePromise q v (promises s) \<Longrightarrow> keepsSettled s s'"
  by (simp add: keepsSettled_def settlePromise_length settlePromise_nth)

lemma step_keepsSettled:
  assumes "step s s'"
  shows "keepsSettled s s'"
  using assms
proof (cases rule: step.cases)
  case (submit id' progress p)
  then have "promises s' = promises s @ [Pending]"
    by (auto simp: sendIPC_def Let_def split: if_splits)
  then show ?thesis by (simp add: keepsSettled_def nth_append)
next
  case (message m)
  show ?thesis
  proof (cases m)
    case Malformed
    with message show ?thesis by (simp add: onmessage_def keepsSettled_refl)
  next
    case (Response id' status data)
    show ?thesis
    proof (cases "dict_get (waitingPromise s) id'")
      case None
      with message Response show ?thesis by (simp add: onmessage_def keepsSettled_refl)
    next
      case (Some e)
      show ?thesis
      proof (cases status)
        case Resolve
        with message Response Some
        have "promises s' = settlePromise (entry_promise e) (Fulfilled data) (promises s)"
          by (simp add: onmessage_def entryResolve_def)
        then show ?thesis by (rule keepsSettled_settle)
      next
        case Reject
        with message Response Some
        have "promises s' = settlePromise (entry_promise e) (Rejected (WorkerPayload data))
            (promises s)"
          by (simp add: onmessage_def entryReject_def)
        then show ?thesis by (rule keepsSettled_settle)
      next
        case Progress
        with message Response Some have "promises s' = promises s"
          by (simp add: onmessage_def entryProgress_def)
        then show ?thesis by (simp add: keepsSettled_def)
      qed
    qed
  qed
next
  case abort
  with fold_abort_promises [of "waitingPromise s" s] show ?thesis
    by (auto simp: keepsSettled_def abortPending_def)
next
  case (install workers)
  then show ?thesis by (simp add: keepsSettled_def installWorkers_def)
qed

lemma steps_keepsSettled: "step\<^sup>*\<^sup>* s s' \<Longrightarrow> keepsSettled s s'"
proof (induction rule: rtranclp_induct)
  case base
  show ?case by (rule keepsSettled_refl)
next
  case (step t u)
  from step.IH step_keepsSettled [OF step.hyps(2)] show ?case
    by (rule keepsSettled_trans)
qed

text \<open>
  C4. In every reachable state of the module, the abort step of a reload empties the
  waiting table and rejects the promise of every entry that was in it with the error
  \<open>Task aborted due to reload\<close>; whatever the module does afterwards (responses of
  workers, old or new, submissions, further reloads), these promises stay rejected with
  that error, so none of these tasks ever resolves. And a response \<open>[id, status, data]\<close>
  whose id is not in the waiting table leaves the state exactly as it is.
\<close>

theorem reload_rejects_waiting_tasks:
  assumes "reachable s"
  shows "waitingPromise (abortPending s) = []
    \<and> (\<forall>s'. step\<^sup>*\<^sup>* (abortPending s) s'
          \<longrightarrow> (\<forall>x\<in>set (waitingPromise s).
                 promises s' ! entry_promise (snd x)
                   = Rejected (ErrorObject ''Task aborted due to reload'')))
    \<and> (\<forall>t id' status data.
          dict_get (waitingPromise t) id' = None
          \<longrightarrow> onmessage t (Response id' status data) = (t :: 'a pool))"
proof (intro conjI allI impI ballI)
  show "waitingPromise (abortPending s) = []"
    by (rule abortPending_table)
next
  fix s' x
  assume later: "step\<^sup>*\<^sup>* (abortPending s) s'" and x: "x \<in> set (waitingPromise s)"
  let ?p = "entry_promise (snd x)"
  from inv_reachable [OF assms] x
  have p: "?p < length (promises s)" and pending: "promises s ! ?p = Pending"
    unfolding poolInv_def by blast+
  from fold_abort_promises [of "waitingPromise s" s] p pending x
  have len: "length (promises (abortPending s)) = length (promises s)"
    and rejected: "promises (abortPending s) ! ?p = Rejected reloadReason"
    by (auto simp: abortPending_def)
  from steps_keepsSettled [OF later] p len rejected
  have "promises s' ! ?p = Rejected reloadReason"
    by (simp add: keepsSettled_def)
  then show "promises s' ! ?p = Rejected (ErrorObject ''Task aborted due to reload'')"
    by (simp add: reloadReason_def)
next
  fix t :: "'a pool" and id' status data
  assume "dict_get (waitingPromise t) id' = None"
  then show "onmessage t (Response id' status data) = t"
    by (simp add: onmessage_def)
qed

theorem reload_rejects_waiting_tasks_witness:
  "reachable \<lparr>waitingPromise =
        [(''t1'', \<lparr>entry_promise = 0, entry_worker = 7, entry_progress = False\<rparr>)],
      availableWorkers = [], promises = [Pending :: string settled], delivered = []\<rparr>
   \<and> abortPending \<lparr>waitingPromise =
        [(''t1'', \<lparr>entry_promise = 0, entry_worker = 7, entry_progress = False\<rparr>)],
      availableWorkers = [], promises = [Pending :: string settled], delivered = []\<rparr>
     = \<lparr>waitingPromise = [], availableWorkers = [7],
        promises = [Rejected (ErrorObject ''Task aborted due to reload'')], delivered = []\<rparr>
   \<and> onmessage \<lparr>waitingPromise = [], availableWorkers = [7],
        promises = [Rejected (ErrorObject ''Task aborted due to reload'')], delivered = []\<rparr>
       (Response ''t1'' Resolve ''late'')
     = \<lparr>waitingPromise = [], availableWorkers = [7],
        promises = [Rejected (ErrorObject ''Task aborted due to reload'') :: string settled],
        delivered = []\<rparr>
   \<and> promises (onmessage (abortPending \<lparr>waitingPromise =
        [(''t1'', \<lparr>entry_promise = 0, entry_worker = 7, entry_progress = False\<rparr>)],
      availableWorkers = [], promises = [Pending :: string settled], delivered = []\<rparr>)
       (Response ''t1'' Resolve ''late'')) ! 0
     = Rejected (ErrorObject ''Task aborted due to reload'')"
proof -
  let ?e = "\<lparr>entry_promise = 0, entry_worker = 7, entry_progress = False\<rparr>"
  let ?s1 = "\<lparr>waitingPromise = [(''t1'', ?e)], availableWorkers = [],
      promises = [Pending :: string settled], delivered = []\<rparr>"
  let ?s2 = "\<lparr>waitingPromise = [], availableWorkers = [7],
      promises = [Rejected (ErrorObject ''Task aborted due to reload'') :: string settled],
      delivered = []\<rparr>"
  let ?s0 = "installWorkers (initialPool :: string pool) [7]"
  have "reachable ?s0"
    by (rule reachable.next_step [OF reachable.initial step.install])
  moreover have sent: "sendIPC ?s0 ''t1'' False = Inr (0, ?s1)"
    by (simp add: sendIPC_def installWorkers_def initialPool_def dict_set_def dict_has_def
          isArrayIndex_def isDigit_def)
  ultimately have r: "reachable ?s1"
    by (blast intro: reachable.next_step step.submit)
  have a: "abortPending ?s1 = ?s2"
    by (simp add: abortPending_def abortEntry_def entryReject_def settlePromise_def
          reloadReason_def dict_delete_def)
  have "step\<^sup>*\<^sup>* (abortPending ?s1) (onmessage (abortPending ?s1) (Response ''t1'' Resolve ''late''))"
    by (rule r_into_rtranclp) (rule step.message)
  with reload_rejects_waiting_tasks [OF r]
  have late: "promises (onmessage (abortPending ?s1) (Response ''t1'' Resolve ''late'')) ! 0
      = Rejected (ErrorObject ''Task aborted due to reload'')"
    by fastforce
  have d0: "dict_get (waitingPromise ?s2) ''t1'' = None"
    by (simp add: dict_get_def)
  have drop: "onmessage ?s2 (Response ''t1'' Resolve ''late'') = ?s2"
    by (rule conjunct2 [OF conjunct2 [OF reload_rejects_waiting_tasks [OF r]],
          rule_format, OF d0])
  from r a drop late show ?thesis by (simp only: simp_thms)
qed

end
